theory Spec2Isabelle
  imports Complex_Main "HOL-Library.Word" "HOL-Library.Sublist"
begin

section \<open>JavaScript strings\<close>

text \<open>
  A JavaScript string is a sequence of UTF-16 code units. \<open>split\<close>, \<open>startsWith\<close>,
  \<open>includes\<close>, \<open>trim\<close> and the regular expressions of the source (none has the \<open>u\<close>
  flag) all work on code units, so a string is modelled as a list of 16-bit words.
  \<open>js\<close> writes an ASCII literal of the source as such a list.
\<close>

type_synonym jschar = "16 word"
type_synonym jsstring = "jschar list"

definition js :: "string \<Rightarrow> jsstring" where
  "js s = map of_char s"

definition LF :: jschar where
  "LF = 0x0A"

text \<open>The class \<open>\s\<close> of a regular expression, which is also what \<open>trim\<close> removes:
  the white space and line terminator code points of ECMAScript.\<close>

definition is_space :: "jschar \<Rightarrow> bool" where
  "is_space c \<longleftrightarrow>
     c = 0x09 \<or> c = 0x0A \<or> c = 0x0B \<or> c = 0x0C \<or> c = 0x0D \<or> c = 0x20 \<or> c = 0xA0 \<or>
     c = 0x1680 \<or> (0x2000 \<le> c \<and> c \<le> 0x200A) \<or> c = 0x2028 \<or> c = 0x2029 \<or>
     c = 0x202F \<or> c = 0x205F \<or> c = 0x3000 \<or> c = 0xFEFF"

text \<open>The class \<open>\w\<close>: \<open>[A-Za-z0-9_]\<close>.\<close>

definition is_word :: "jschar \<Rightarrow> bool" where
  "is_word c \<longleftrightarrow>
     (0x41 \<le> c \<and> c \<le> 0x5A) \<or> (0x61 \<le> c \<and> c \<le> 0x7A) \<or> (0x30 \<le> c \<and> c \<le> 0x39) \<or> c = 0x5F"

definition trim :: "jsstring \<Rightarrow> jsstring" where
  "trim s = rev (dropWhile is_space (rev (dropWhile is_space s)))"

definition startsWith :: "jsstring \<Rightarrow> jsstring \<Rightarrow> bool" where
  "startsWith s p = prefix p s"

text \<open>\<open>s.includes(k)\<close>: \<open>k\<close> occurs in \<open>s\<close> as a contiguous run of code units.\<close>

fun includes_js :: "jsstring \<Rightarrow> jsstring \<Rightarrow> bool" where
  "includes_js [] k = (k = [])"
| "includes_js (c # cs) k = (prefix k (c # cs) \<or> includes_js cs k)"

text \<open>
  \<open>s.split(sep)\<close> for a string separator: scan from the left, cut at each occurrence
  of \<open>sep\<close> and go on after it. \<open>cur\<close> is the piece being collected. With the empty
  separator JavaScript returns the code units one by one.
\<close>

function split_from :: "jsstring \<Rightarrow> jsstring \<Rightarrow> jsstring \<Rightarrow> jsstring list" where
  "split_from sep cur [] = [cur]"
| "split_from sep cur (c # cs) =
     (if sep \<noteq> [] \<and> prefix sep (c # cs)
      then cur # split_from sep [] (drop (length sep) (c # cs))
      else split_from sep (cur @ [c]) cs)"
  by pat_completeness auto
termination
  by (relation "measure (\<lambda>(sep, cur, s). length s)") auto

definition split :: "jsstring \<Rightarrow> jsstring \<Rightarrow> jsstring list" where
  "split s sep = (if sep = [] then map (\<lambda>c. [c]) s else split_from sep [] s)"

text \<open>\<open>xs.join(sep)\<close>.\<close>

fun join :: "jsstring list \<Rightarrow> jsstring \<Rightarrow> jsstring" where
  "join [] sep = []"
| "join [x] sep = x"
| "join (x # y # ys) sep = x @ sep @ join (y # ys) sep"


section \<open>The section parser of AnalysisDisplay.tsx\<close>

text \<open>
  \<open>ParsedSection\<close> of types.ts. Its \<open>type\<close> is a union of string literals and its
  \<open>theme\<close> takes the values of the table only; both are datatypes here, each
  constructor standing for the lower-case string of the source
  (\<open>Header\<close> for \<open>'header'\<close>, \<open>Danger\<close> for \<open>'danger'\<close>, ...).
\<close>

datatype SectionType = Header | List | Text | Code | Table | Impact

datatype Theme = Neutral | Danger | Info | Warning | Success | Life

record SectionConfig =
  cfg_icon :: jsstring
  cfg_type :: SectionType
  cfg_theme :: Theme

record ParsedSection =
  title :: jsstring
  icon :: jsstring
  content :: jsstring
  type :: SectionType
  theme :: Theme

text \<open>\<open>sectionConfig\<close>, in the order of its declaration (the order of \<open>Object.keys\<close>).\<close>

definition sectionConfig :: "(jsstring \<times> SectionConfig) list" where
  "sectionConfig =
    [(js ''GlobalSight Analysis'', \<lparr>cfg_icon = js ''fa-globe'', cfg_type = Header, cfg_theme = Neutral\<rparr>),
     (js ''Problem Detected'', \<lparr>cfg_icon = js ''fa-triangle-exclamation'', cfg_type = List, cfg_theme = Danger\<rparr>),
     (js ''Root Cause'', \<lparr>cfg_icon = js ''fa-dna'', cfg_type = Text, cfg_theme = Info\<rparr>),
     (js ''Predicted Impact'', \<lparr>cfg_icon = js ''fa-chart-line'', cfg_type = Impact, cfg_theme = Warning\<rparr>),
     (js ''Actionable Solutions'', \<lparr>cfg_icon = js ''fa-leaf'', cfg_type = List, cfg_theme = Success\<rparr>),
     (js ''Simulation Model'', \<lparr>cfg_icon = js ''fa-flask'', cfg_type = Text, cfg_theme = Life\<rparr>),
     (js ''Auto-Generated Code'', \<lparr>cfg_icon = js ''fa-code'', cfg_type = Code, cfg_theme = Neutral\<rparr>),
     (js ''Summary Snapshot'', \<lparr>cfg_icon = js ''fa-clipboard-check'', cfg_type = Table, cfg_theme = Success\<rparr>)]"

definition defaultConfig :: SectionConfig where
  "defaultConfig = \<lparr>cfg_icon = js ''fa-circle-info'', cfg_type = Text, cfg_theme = Neutral\<rparr>"

text \<open>
  \<open>currentTitle.replace(/^[#\s]+/, '').trim()\<close> and then \<open>.replace(/^[^\w\s]+\s*/, '')\<close>.
  Each expression is anchored at the start and is a run of one character class (then a
  run of a disjoint one), so the greedy match is the longest such run; with no match the
  string is unchanged.
\<close>

definition strip_hashes :: "jsstring \<Rightarrow> jsstring" where
  "strip_hashes s = dropWhile (\<lambda>c. c = 0x23 \<or> is_space c) s"

definition strip_glyph :: "jsstring \<Rightarrow> jsstring" where
  "strip_glyph s =
     (case s of
        [] \<Rightarrow> []
      | c # cs \<Rightarrow>
          if \<not> is_word c \<and> \<not> is_space c
          then dropWhile is_space (dropWhile (\<lambda>d. \<not> is_word d \<and> \<not> is_space d) s)
          else s)"

definition cleanTitle :: "jsstring \<Rightarrow> jsstring" where
  "cleanTitle currentTitle = strip_glyph (trim (strip_hashes currentTitle))"

text \<open>\<open>Object.keys(sectionConfig).find(k => cleanTitle.includes(k))\<close> and the lookup.\<close>

definition lookupConfig :: "jsstring \<Rightarrow> SectionConfig" where
  "lookupConfig t =
     (case List.find (\<lambda>kv. includes_js t (fst kv)) sectionConfig of
        Some kv \<Rightarrow> snd kv
      | None \<Rightarrow> defaultConfig)"

text \<open>The three variables the closure \<open>flushSection\<close> and the loop share.\<close>

record ParserState =
  parsed :: "ParsedSection list"
  currentTitle :: jsstring
  currentContent :: "jsstring list"

definition flushSection :: "ParserState \<Rightarrow> ParserState" where
  "flushSection st =
     (if currentTitle st \<noteq> []
      then
        (let t = cleanTitle (currentTitle st);
             config = lookupConfig t
         in st\<lparr>parsed := parsed st @
                  [\<lparr>title = t, icon = cfg_icon config,
                    content = trim (join (currentContent st) [LF]),
                    type = cfg_type config, theme = cfg_theme config\<rparr>],
                currentContent := []\<rparr>)
      else st\<lparr>currentContent := []\<rparr>)"

definition is_heading :: "jsstring \<Rightarrow> bool" where
  "is_heading line \<longleftrightarrow> startsWith line (js ''## '') \<or> startsWith line (js ''# '')"

fun parse_lines :: "ParserState \<Rightarrow> jsstring list \<Rightarrow> ParserState" where
  "parse_lines st [] = st"
| "parse_lines st (line # lines) =
     (if is_heading line
      then parse_lines ((flushSection st)\<lparr>currentTitle := line\<rparr>) lines
      else parse_lines (st\<lparr>currentContent := currentContent st @ [line]\<rparr>) lines)"

definition sections :: "jsstring \<Rightarrow> ParsedSection list" where
  "sections rawMarkdown =
     (if rawMarkdown = [] then []
      else parsed (flushSection
             (parse_lines \<lparr>parsed = [], currentTitle = [], currentContent = []\<rparr>
                (split rawMarkdown [LF]))))"


section \<open>JavaScript values and the error message of geminiService.ts\<close>

text \<open>
  \<open>extractErrorMessage\<close> takes \<open>error: any\<close>. The values it can tell apart are modelled
  by \<open>jsval\<close>: the primitives and objects, an object being its prototype and its own
  properties in order. \<open>ErrorPrototype\<close> stands for every prototype chain that passes
  \<open>Error.prototype\<close> (what \<open>instanceof Error\<close> tests), \<open>NullPrototype\<close> for an object
  made by \<open>Object.create(null)\<close>. A number is kept only as far as its truthiness and
  type go.
\<close>

datatype jsnum = NaN | Infinity bool | Finite rat

datatype proto = ObjectPrototype | ErrorPrototype | NullPrototype

datatype jsval =
    JUndefined
  | JNull
  | JBool bool
  | JNum jsnum
  | JStr jsstring
  | JObj proto "(jsstring \<times> jsval) list"

text \<open>The exception that \<open>String\<close> raises for an object it cannot convert.\<close>

datatype js_error = TypeError

text \<open>
  Reading a property. The function reads the names \<open>response\<close>, \<open>data\<close>, \<open>error\<close>,
  \<open>message\<close> and \<open>statusText\<close> only; no primitive has one of them, and of the
  prototypes only \<open>Error.prototype\<close> has one, \<open>message\<close>, the empty string.
\<close>

fun get_prop :: "jsval \<Rightarrow> jsstring \<Rightarrow> jsval" where
  "get_prop (JObj p props) k =
     (case map_of props k of
        Some v \<Rightarrow> v
      | None \<Rightarrow> if p = ErrorPrototype \<and> k = js ''message'' then JStr [] else JUndefined)"
| "get_prop v k = JUndefined"

text \<open>\<open>v?.k\<close>\<close>

definition opt_chain :: "jsval \<Rightarrow> jsstring \<Rightarrow> jsval" where
  "opt_chain v k = (if v = JUndefined \<or> v = JNull then JUndefined else get_prop v k)"

fun truthy :: "jsval \<Rightarrow> bool" where
  "truthy JUndefined = False"
| "truthy JNull = False"
| "truthy (JBool b) = b"
| "truthy (JNum n) = (case n of NaN \<Rightarrow> False | Infinity neg \<Rightarrow> True | Finite q \<Rightarrow> q \<noteq> 0)"
| "truthy (JStr s) = (s \<noteq> [])"
| "truthy (JObj p props) = True"

text \<open>\<open>typeof v === 'string'\<close>, \<open>v instanceof Error\<close>, and the string that a value of
  type string is.\<close>

fun typeof_string :: "jsval \<Rightarrow> bool" where
  "typeof_string (JStr s) = True"
| "typeof_string v = False"

fun instanceof_Error :: "jsval \<Rightarrow> bool" where
  "instanceof_Error (JObj p props) = (p = ErrorPrototype)"
| "instanceof_Error v = False"

fun string_value :: "jsval \<Rightarrow> jsstring" where
  "string_value (JStr s) = s"
| "string_value v = []"

text \<open>
  \<open>JSON.stringify\<close> and \<open>String\<close> are built in, not code of the repository. What they
  do on \<open>undefined\<close>, \<open>null\<close>, booleans, strings and objects without properties is
  written out; for every other value they are parameters, so that what is proved holds
  whatever they do there. Both can raise an exception, which is the result \<open>None\<close>:
  \<open>JSON.stringify\<close> for a cyclic value, say, and \<open>String\<close> for an object that has
  neither a \<open>toString\<close> nor a \<open>valueOf\<close> giving a primitive, as the object without
  prototype and without properties. \<open>TypeError_message\<close> is the text the engine gives
  the \<open>TypeError\<close> that \<open>String\<close> raises.
\<close>

record Builtins =
  JSON_stringify :: "jsval \<Rightarrow> jsval option"
  ToString :: "jsval \<Rightarrow> jsstring option"
  TypeError_message :: jsstring

definition stringify :: "Builtins \<Rightarrow> jsval \<Rightarrow> jsval option" where
  "stringify env v =
     (case v of
        JUndefined \<Rightarrow> Some JUndefined
      | JNull \<Rightarrow> Some (JStr (js ''null''))
      | JBool b \<Rightarrow> Some (JStr (if b then js ''true'' else js ''false''))
      | JObj ObjectPrototype [] \<Rightarrow> Some (JStr (js ''{}''))
      | JObj NullPrototype [] \<Rightarrow> Some (JStr (js ''{}''))
      | _ \<Rightarrow> JSON_stringify env v)"

definition String_of :: "Builtins \<Rightarrow> jsval \<Rightarrow> jsstring option" where
  "String_of env v =
     (case v of
        JStr s \<Rightarrow> Some s
      | JUndefined \<Rightarrow> Some (js ''undefined'')
      | JNull \<Rightarrow> Some (js ''null'')
      | JBool b \<Rightarrow> Some (if b then js ''true'' else js ''false'')
      | JObj NullPrototype [] \<Rightarrow> None
      | _ \<Rightarrow> ToString env v)"

text \<open>
  \<open>extractErrorMessage\<close>. The \<open>try\<close> of the source encloses \<open>JSON.stringify\<close> only;
  \<open>String(msg)\<close> stands after it, so an exception it raises leaves the function
  (\<open>Inl\<close>). The template literal of the \<open>statusText\<close> branch is reached for a string.
\<close>

definition extractErrorMessage :: "Builtins \<Rightarrow> jsval \<Rightarrow> js_error + jsstring" where
  "extractErrorMessage env error =
     (let nested = opt_chain (opt_chain (opt_chain (opt_chain error (js ''response'')) (js ''data''))
                      (js ''error'')) (js ''message'');
          inner = opt_chain (opt_chain error (js ''error'')) (js ''message'');
          direct = opt_chain error (js ''message'');
          msg0 =
            (if truthy nested \<and> typeof_string nested then nested
             else if truthy inner \<and> typeof_string inner then inner
             else if truthy direct \<and> typeof_string direct then direct
             else if instanceof_Error error then get_prop error (js ''message'')
             else if typeof_string error then error
             else
               (case stringify env error of
                  Some stringified \<Rightarrow>
                    if stringified = JStr (js ''{}'')
                    then JStr (js ''An unknown system error occurred.'')
                    else stringified
                | None \<Rightarrow> JStr (js ''Non-serializable error.'')));
          statusText = opt_chain error (js ''statusText'')
      in case String_of env msg0 of
           None \<Rightarrow> Inl TypeError
         | Some msg \<Rightarrow>
             Inr (if includes_js msg (js ''[object Object]'') \<or> msg = js ''{}''
                  then
                    (if truthy statusText \<and> typeof_string statusText
                     then js ''API Error: '' @ string_value statusText
                     else js ''Critical Error: The server returned an invalid response format.'')
                  else msg))"

text \<open>
  \<open>catch (error) { throw new Error(extractErrorMessage(error)) }\<close> of the two streaming
  calls: the message of the error that leaves the call. When \<open>extractErrorMessage\<close>
  raises, it is its \<open>TypeError\<close> that leaves.
\<close>

definition rethrown :: "Builtins \<Rightarrow> jsval \<Rightarrow> jsstring" where
  "rethrown env error =
     (case extractErrorMessage env error of
        Inr msg \<Rightarrow> msg
      | Inl TypeError \<Rightarrow> TypeError_message env)"


section \<open>Requests, chunks and the two streaming calls of geminiService.ts\<close>

text \<open>
  A content part is \<open>{text}\<close> or \<open>{inlineData: {data, mimeType}}\<close>. \<open>data\<close> is
  \<open>None\<close> where the source stores \<open>undefined\<close> (an index past the end of an array).
\<close>

datatype Part = TextPart jsstring | InlineData "jsstring option" jsstring

datatype Role = User | Model

record Content =
  role :: Role
  parts :: "Part list"

record ChatMessage =
  msg_role :: Role
  msg_text :: jsstring
  msg_timestamp :: int

record WebSource =
  uri :: jsstring
  web_title :: jsstring

record GroundingChunk =
  web :: "WebSource option"

text \<open>\<open>chunk.candidates?.[0]?.groundingMetadata\<close>, each field optional.\<close>

record ChunkMetadata =
  md_groundingChunks :: "GroundingChunk list option"
  md_webSearchQueries :: "jsstring list option"

record Chunk =
  chunk_text :: "jsstring option"
  chunk_groundingMetadata :: "ChunkMetadata option"

record Grounding =
  groundingChunks :: "GroundingChunk list"
  webSearchQueries :: "jsstring list option"

text \<open>
  The hosted model is a parameter: for the contents of a request it gives the chunks
  the stream yields and, if the stream fails after them, the value thrown.
  What a call does is the contents it sent (if it got that far), the arguments of
  its calls of \<open>onUpdate\<close> in order, and the message of the \<open>Error\<close> it throws, if any.
  The configuration of a request (model name, system instruction, temperature, tools) is
  the same in every request and is left out.
\<close>

type_synonym Provider = "Content list \<Rightarrow> Chunk list \<times> jsval option"

type_synonym Update = "jsstring \<times> Grounding option"

record Outcome =
  sent :: "Content list option"
  updates :: "Update list"
  thrown :: "jsstring option"

text \<open>The truthiness of a value of type \<open>string | undefined\<close>: defined and not empty.\<close>

definition truthy_str :: "jsstring option \<Rightarrow> bool" where
  "truthy_str s = (case s of None \<Rightarrow> False | Some x \<Rightarrow> x \<noteq> [])"

text \<open>\<open>!process.env.API_KEY\<close>\<close>

definition api_key_missing :: "jsstring option \<Rightarrow> bool" where
  "api_key_missing key = (\<not> truthy_str key)"

text \<open>\<open>b.includes('base64,') ? b.split('base64,')[1] : b\<close>. The index 1 exists when
  the separator occurs; \<open>nth_opt\<close> is the array read, \<open>None\<close> for \<open>undefined\<close>.\<close>

fun nth_opt :: "'a list \<Rightarrow> nat \<Rightarrow> 'a option" where
  "nth_opt [] n = None"
| "nth_opt (x # xs) 0 = Some x"
| "nth_opt (x # xs) (Suc n) = nth_opt xs n"

definition cleanBase64 :: "jsstring \<Rightarrow> jsstring option" where
  "cleanBase64 b =
     (if includes_js b (js ''base64,'') then nth_opt (split b (js ''base64,'')) 1 else Some b)"

text \<open>\<open>if (base64 && mimeType) parts.push(...)\<close>, for the image and for the audio.\<close>

definition push_media :: "Part list \<Rightarrow> jsstring option \<Rightarrow> jsstring option \<Rightarrow> Part list" where
  "push_media ps base64 mimeType =
     (if truthy_str base64 \<and> truthy_str mimeType
      then ps @ [InlineData (cleanBase64 (the base64)) (the mimeType)]
      else ps)"

definition default_prompt :: jsstring where
  "default_prompt =
     js ''Analyze the current state of the world based on available data and general knowledge.''"

definition analyze_parts ::
  "jsstring \<Rightarrow> jsstring option \<Rightarrow> jsstring option \<Rightarrow> jsstring option \<Rightarrow> jsstring option \<Rightarrow> Part list" where
  "analyze_parts textInput base64Image imageMimeType base64Audio audioMimeType =
     (let parts0 = [];
          parts1 = push_media parts0 base64Image imageMimeType;
          parts2 = push_media parts1 base64Audio audioMimeType
      in if textInput \<noteq> [] then parts2 @ [TextPart textInput]
         else if length parts2 = 0 then parts2 @ [TextPart default_prompt]
         else parts2)"

text \<open>
  One turn of the \<open>for await\<close> loop of \<open>analyzeContentStream\<close>: the new buffer and the
  new accumulator. The loop hands the same accumulator object to every call of
  \<open>onUpdate\<close>; the list of updates holds its value at the time of each call.
\<close>

definition add_text :: "jsstring \<Rightarrow> Chunk \<Rightarrow> jsstring" where
  "add_text fullText chunk =
     (case chunk_text chunk of
        Some chunkText \<Rightarrow> if chunkText \<noteq> [] then fullText @ chunkText else fullText
      | None \<Rightarrow> fullText)"

definition add_grounding :: "Grounding \<Rightarrow> Chunk \<Rightarrow> Grounding" where
  "add_grounding acc chunk =
     (case chunk_groundingMetadata chunk of
        None \<Rightarrow> acc
      | Some chunkMetadata \<Rightarrow>
          (let acc1 = (case md_groundingChunks chunkMetadata of
                         Some gs \<Rightarrow> acc\<lparr>groundingChunks := groundingChunks acc @ gs\<rparr>
                       | None \<Rightarrow> acc)
           in case md_webSearchQueries chunkMetadata of
                Some qs \<Rightarrow> acc1\<lparr>webSearchQueries := Some qs\<rparr>
              | None \<Rightarrow> acc1))"

fun analyze_loop :: "jsstring \<Rightarrow> Grounding \<Rightarrow> Chunk list \<Rightarrow> Update list" where
  "analyze_loop fullText accumulatedGrounding [] = []"
| "analyze_loop fullText accumulatedGrounding (chunk # rest) =
     (let fullText' = add_text fullText chunk;
          accumulatedGrounding' = add_grounding accumulatedGrounding chunk
      in (fullText', Some accumulatedGrounding') # analyze_loop fullText' accumulatedGrounding' rest)"

definition analyzeContentStream ::
  "Builtins \<Rightarrow> jsstring option \<Rightarrow> Provider \<Rightarrow>
   jsstring \<Rightarrow> jsstring option \<Rightarrow> jsstring option \<Rightarrow> jsstring option \<Rightarrow> jsstring option \<Rightarrow> Outcome" where
  "analyzeContentStream env api_key provider textInput base64Image imageMimeType base64Audio audioMimeType =
     (if api_key_missing api_key
      then \<lparr>sent = None, updates = [],
            thrown = Some (js ''API Key is missing. Please check your environment variables.'')\<rparr>
      else
        (let contents = [\<lparr>role = User,
                          parts = analyze_parts textInput base64Image imageMimeType base64Audio audioMimeType\<rparr>];
             (chunks, failure) = provider contents
         in \<lparr>sent = Some contents,
             updates = analyze_loop [] \<lparr>groundingChunks = [], webSearchQueries = None\<rparr> chunks,
             thrown = map_option (rethrown env) failure\<rparr>))"

text \<open>\<open>continueConversationStream\<close>: the contents are built by pushes, the loop calls
  \<open>onUpdate(fullText)\<close> with no second argument.\<close>

definition continue_contents :: "ChatMessage list \<Rightarrow> jsstring \<Rightarrow> Part list \<Rightarrow> Content list" where
  "continue_contents history newMessage initialContextParts =
     (let contents0 = [];
          contents1 = (if length initialContextParts > 0
                       then contents0 @ [\<lparr>role = User, parts = initialContextParts\<rparr>]
                       else contents0);
          contents2 = foldl (\<lambda>contents msg.
                         contents @ [\<lparr>role = msg_role msg, parts = [TextPart (msg_text msg)]\<rparr>])
                       contents1 history
      in contents2 @ [\<lparr>role = User, parts = [TextPart newMessage]\<rparr>])"

fun continue_loop :: "jsstring \<Rightarrow> Chunk list \<Rightarrow> Update list" where
  "continue_loop fullText [] = []"
| "continue_loop fullText (chunk # rest) =
     (let fullText' = add_text fullText chunk
      in (fullText', None) # continue_loop fullText' rest)"

definition continueConversationStream ::
  "Builtins \<Rightarrow> jsstring option \<Rightarrow> Provider \<Rightarrow> ChatMessage list \<Rightarrow> jsstring \<Rightarrow> Part list \<Rightarrow> Outcome" where
  "continueConversationStream env api_key provider history newMessage initialContextParts =
     (if api_key_missing api_key
      then \<lparr>sent = None, updates = [], thrown = Some (js ''API Key missing'')\<rparr>
      else
        (let contents = continue_contents history newMessage initialContextParts;
             (chunks, failure) = provider contents
         in \<lparr>sent = Some contents,
             updates = continue_loop [] chunks,
             thrown = map_option (rethrown env) failure\<rparr>))"


section \<open>The application: analysis, context capture and follow-up chat\<close>

text \<open>
  \<open>FileData\<close> and \<open>AudioData\<close> of types.ts; the handlers read \<open>base64\<close> and \<open>mimeType\<close>
  only, which both have.
\<close>

record FileData =
  base64 :: jsstring
  mimeType :: jsstring

type_synonym AudioData = FileData

record AnalysisResult =
  res_text :: jsstring
  res_groundingMetadata :: "Grounding option"

text \<open>The state of \<open>App\<close> that the handlers and the display read; the flags
  \<open>isLoading\<close>, \<open>isStreaming\<close> and \<open>isVisualAnalysis\<close> only steer the presentation.\<close>

record AppState =
  result :: "AnalysisResult option"
  error :: "jsstring option"
  chatHistory :: "ChatMessage list"
  initialContextParts :: "Part list"

text \<open>\<open>if (d) contextParts.push({inlineData: {data: d.base64.split('base64,')[1],
  mimeType: d.mimeType}})\<close>, for \<open>fileData\<close> and for \<open>audioData\<close>.\<close>

definition push_context :: "Part list \<Rightarrow> FileData option \<Rightarrow> Part list" where
  "push_context ps d =
     (case d of
        Some fd \<Rightarrow> ps @ [InlineData (nth_opt (split (base64 fd) (js ''base64,'')) 1) (mimeType fd)]
      | None \<Rightarrow> ps)"

definition contextParts_of :: "jsstring \<Rightarrow> FileData option \<Rightarrow> AudioData option \<Rightarrow> Part list" where
  "contextParts_of txt fileData audioData =
     (let contextParts0 = [];
          contextParts1 = push_context contextParts0 fileData;
          contextParts2 = push_context contextParts1 audioData;
          contextParts3 = (if txt \<noteq> [] then contextParts2 @ [TextPart txt] else contextParts2)
      in if length contextParts3 = 0
         then contextParts3 @ [TextPart (js ''Analyze world data.'')]
         else contextParts3)"

text \<open>The callback of \<open>handleAnalyze\<close>:
  \<open>setResult(prev => ({text: streamedText, groundingMetadata: streamedMetadata || prev?.groundingMetadata}))\<close>\<close>

definition on_analysis_update :: "AppState \<Rightarrow> Update \<Rightarrow> AppState" where
  "on_analysis_update st u =
     st\<lparr>result := Some
          \<lparr>res_text = fst u,
           res_groundingMetadata =
             (case snd u of
                Some streamedMetadata \<Rightarrow> Some streamedMetadata
              | None \<Rightarrow> (case result st of Some prev \<Rightarrow> res_groundingMetadata prev | None \<Rightarrow> None))\<rparr>\<rparr>"

text \<open>\<open>handleAnalyze\<close>: the state when the call has ended, and the contents of the request
  it sent.\<close>

definition handleAnalyze ::
  "Builtins \<Rightarrow> jsstring option \<Rightarrow> Provider \<Rightarrow> AppState \<Rightarrow>
   jsstring \<Rightarrow> FileData option \<Rightarrow> AudioData option \<Rightarrow> AppState \<times> Content list option" where
  "handleAnalyze env api_key provider st txt fileData audioData =
     (let st1 = st\<lparr>error := None,
                   result := Some \<lparr>res_text = [], res_groundingMetadata = None\<rparr>,
                   chatHistory := [],
                   initialContextParts := contextParts_of txt fileData audioData\<rparr>;
          out = analyzeContentStream env api_key provider txt
                  (map_option base64 fileData) (map_option mimeType fileData)
                  (map_option base64 audioData) (map_option mimeType audioData);
          st2 = foldl on_analysis_update st1 (updates out);
          st3 = (case thrown out of
                   None \<Rightarrow> st2
                 | Some msg \<Rightarrow>
                     st2\<lparr>error := Some
                       (if includes_js msg (js ''[object Object]'') \<or> msg = js ''{}''
                        then js ''System Error: Connection terminated unexpectedly.''
                        else msg)\<rparr>)
      in (st3, sent out))"

text \<open>
  \<open>copy[copy.length - 1] = m\<close> on a copy of \<open>prev\<close>. On an empty array the index is
  \<open>-1\<close>: JavaScript then sets a property of that name and the array stays empty.
\<close>

definition replace_last :: "ChatMessage list \<Rightarrow> ChatMessage \<Rightarrow> ChatMessage list" where
  "replace_last prev m = (if prev = [] then [] else butlast prev @ [m])"

text \<open>
  The values of \<open>chatHistory\<close> after each streamed update: every update replaces the
  last entry. \<open>now k\<close> is what the \<open>k\<close>-th call of \<open>Date.now()\<close> of the handler returns.
\<close>

fun stream_history :: "(nat \<Rightarrow> int) \<Rightarrow> nat \<Rightarrow> ChatMessage list \<Rightarrow> Update list \<Rightarrow> ChatMessage list list" where
  "stream_history now k prev [] = []"
| "stream_history now k prev (u # us) =
     (let h = replace_last prev \<lparr>msg_role = Model, msg_text = fst u, msg_timestamp = now k\<rparr>
      in h # stream_history now (Suc k) h us)"

text \<open>
  \<open>handleSendMessage\<close>: the successive values of \<open>chatHistory\<close>, one for each call of
  \<open>setChatHistory\<close>, in order; none when there is no result.
\<close>

definition handleSendMessage ::
  "Builtins \<Rightarrow> jsstring option \<Rightarrow> Provider \<Rightarrow> (nat \<Rightarrow> int) \<Rightarrow> AppState \<Rightarrow> jsstring \<Rightarrow> ChatMessage list list" where
  "handleSendMessage env api_key provider now st message =
     (case result st of
        None \<Rightarrow> []
      | Some res \<Rightarrow>
          (let userMsg = \<lparr>msg_role = User, msg_text = message, msg_timestamp = now 0\<rparr>;
               newHistory =
                 (if length (chatHistory st) = 0
                  then chatHistory st @ [\<lparr>msg_role = Model, msg_text = res_text res, msg_timestamp = now 1\<rparr>]
                  else chatHistory st);
               k = (if length (chatHistory st) = 0 then 2 else 1);
               historyWithUser = newHistory @ [userMsg];
               withPlaceholder =
                 historyWithUser @ [\<lparr>msg_role = Model, msg_text = js ''Thinking...'', msg_timestamp = now k\<rparr>];
               out = continueConversationStream env api_key provider newHistory message
                       (initialContextParts st);
               streamed = stream_history now (Suc k) withPlaceholder (updates out);
               before_end = last (withPlaceholder # streamed);
               failed =
                 (case thrown out of
                    None \<Rightarrow> []
                  | Some msg \<Rightarrow>
                      [replace_last before_end
                         \<lparr>msg_role = Model,
                          msg_text = js ''Error: '' @
                            (if includes_js msg (js ''[object Object]'')
                             then js ''Connection interrupted (Unknown Error).'' else msg),
                          msg_timestamp = now (Suc k + length (updates out))\<rparr>])
           in [historyWithUser, withPlaceholder] @ streamed @ failed))"


section \<open>The source list of AnalysisDisplay.tsx\<close>

text \<open>
  A JavaScript \<open>Map\<close> keeps its keys in the order of their first insertion; setting a
  key that is present replaces its value where it stands. \<open>new Map(entries)\<close> sets the
  entries in order.
\<close>

fun Map_set :: "('k \<times> 'v) list \<Rightarrow> 'k \<Rightarrow> 'v \<Rightarrow> ('k \<times> 'v) list" where
  "Map_set [] k v = [(k, v)]"
| "Map_set ((k', v') # m) k v = (if k' = k then (k, v) # m else (k', v') # Map_set m k v)"

definition new_Map :: "('k \<times> 'v) list \<Rightarrow> ('k \<times> 'v) list" where
  "new_Map entries = foldl (\<lambda>m (k, v). Map_set m k v) [] entries"

text \<open>\<open>renderGrounding\<close>: the sources it lists, \<open>None\<close> where it returns \<open>null\<close>.\<close>

definition renderGrounding :: "Grounding option \<Rightarrow> WebSource list option" where
  "renderGrounding groundingMetadata =
     (case groundingMetadata of
        None \<Rightarrow> None
      | Some g \<Rightarrow>
          if length (groundingChunks g) = 0 then None
          else
            (let sources = List.map_filter web (groundingChunks g);
                 uniqueSources = map snd (new_Map (map (\<lambda>item. (uri item, item)) sources))
             in if length uniqueSources = 0 then None else Some uniqueSources))"


section \<open>Example data\<close>

text \<open>Builtins, chunks and a session used where a theorem is applied to a concrete input.\<close>

abbreviation (input) ex_env :: Builtins where
  "ex_env \<equiv>
     \<lparr>JSON_stringify = (\<lambda>v. None), ToString = (\<lambda>v. Some (js ''[object Object]'')),
      TypeError_message = js ''Cannot convert object to primitive value''\<rparr>"

abbreviation (input) ex_source_chunk :: "jsstring \<Rightarrow> jsstring \<Rightarrow> Chunk" where
  "ex_source_chunk u t \<equiv>
     \<lparr>chunk_text = None,
      chunk_groundingMetadata =
        Some \<lparr>md_groundingChunks = Some [\<lparr>web = Some \<lparr>uri = u, web_title = t\<rparr>\<rparr>],
              md_webSearchQueries = None\<rparr>\<rparr>"

abbreviation (input) ex_text_chunk :: "jsstring \<Rightarrow> Chunk" where
  "ex_text_chunk t \<equiv> \<lparr>chunk_text = Some t, chunk_groundingMetadata = None\<rparr>"

abbreviation (input) ex_state :: AppState where
  "ex_state \<equiv>
     \<lparr>result = Some \<lparr>res_text = js ''report'', res_groundingMetadata = None\<rparr>,
      error = None, chatHistory = [],
      initialContextParts = [TextPart (js ''check this river'')]\<rparr>"


section \<open>Properties of the section parser\<close>

subsection \<open>Splitting at line feeds\<close>

lemma split_from_char:
  "split_from [n] cur (c # cs) =
     (if c = n then cur # split_from [n] [] cs else split_from [n] (cur @ [c]) cs)"
  by auto

lemma split_from_head: "\<exists>l R. split_from [n] cur t = l # R \<and> prefix cur l"
proof (induction t arbitrary: cur)
  case Nil
  show ?case by simp
next
  case (Cons c cs)
  show ?case
  proof (cases "c = n")
    case True
    then show ?thesis by (simp only: split_from_char) simp
  next
    case False
    from Cons.IH [of "cur @ [c]"] obtain l R
      where "split_from [n] (cur @ [c]) cs = l # R" and "prefix (cur @ [c]) l" by blast
    with False show ?thesis
      by (simp only: split_from_char) (auto dest: append_prefixD)
  qed
qed

lemma split_from_prefix:
  "prefix p t \<Longrightarrow>
   \<exists>L l' l R. split_from [n] cur p = L @ [l'] \<and> split_from [n] cur t = L @ l # R \<and> prefix l' l"
proof (induction p arbitrary: cur t)
  case Nil
  from split_from_head [of n cur t] show ?case by auto
next
  case (Cons c p)
  then obtain t' where t: "t = c # t'" and pt: "prefix p t'"
    by (cases t) auto
  show ?case
  proof (cases "c = n")
    case True
    from Cons.IH [OF pt, of "[]"] obtain L l' l R where
      "split_from [n] [] p = L @ [l']" "split_from [n] [] t' = L @ l # R" "prefix l' l" by blast
    then have "split_from [n] cur (c # p) = (cur # L) @ [l'] \<and>
               split_from [n] cur t = (cur # L) @ l # R \<and> prefix l' l"
      using True t by (simp only: split_from_char) simp
    then show ?thesis by blast
  next
    case False
    from Cons.IH [OF pt, of "cur @ [c]"] obtain L l' l R where
      "split_from [n] (cur @ [c]) p = L @ [l']" "split_from [n] (cur @ [c]) t' = L @ l # R" "prefix l' l" by blast
    then have "split_from [n] cur (c # p) = L @ [l'] \<and>
               split_from [n] cur t = L @ l # R \<and> prefix l' l"
      using False t by (simp only: split_from_char) simp
    then show ?thesis by blast
  qed
qed

lemma split_from_append:
  "split_from [n] cur (a @ n # b) = split_from [n] cur a @ split_from [n] [] b"
proof (induction a arbitrary: cur)
  case Nil
  show ?case by simp
next
  case (Cons c a)
  show ?case
  proof (cases "c = n")
    case True
    have "split_from [n] cur ((c # a) @ n # b) = cur # split_from [n] [] (a @ n # b)"
      using True by (simp only: append_Cons split_from_char) simp
    also have "\<dots> = cur # (split_from [n] [] a @ split_from [n] [] b)"
      by (simp only: Cons.IH)
    also have "\<dots> = split_from [n] cur (c # a) @ split_from [n] [] b"
      using True by (simp only: split_from_char) simp
    finally show ?thesis .
  next
    case False
    have "split_from [n] cur ((c # a) @ n # b) = split_from [n] (cur @ [c]) (a @ n # b)"
      using False by (simp only: append_Cons split_from_char) simp
    also have "\<dots> = split_from [n] (cur @ [c]) a @ split_from [n] [] b"
      by (simp only: Cons.IH)
    also have "\<dots> = split_from [n] cur (c # a) @ split_from [n] [] b"
      using False by (simp only: split_from_char) simp
    finally show ?thesis .
  qed
qed

lemma split_from_last:
  "\<exists>L. split_from [n] cur a = L @ [last (split_from [n] cur a)]"
  by (metis append_butlast_last_id split_from_head list.distinct(1))

lemma is_heading_nonempty: "is_heading l \<Longrightarrow> l \<noteq> []"
  by (auto simp: is_heading_def startsWith_def js_def)

lemma is_heading_mono: "is_heading l' \<Longrightarrow> prefix l' l \<Longrightarrow> is_heading l"
  unfolding is_heading_def startsWith_def by (meson prefix_order.trans)

lemma parsed_flushSection:
  "parsed (flushSection st) =
     parsed st @ (if currentTitle st \<noteq> []
        then [\<lparr>title = cleanTitle (currentTitle st),
               icon = cfg_icon (lookupConfig (cleanTitle (currentTitle st))),
               content = trim (join (currentContent st) [LF]),
               type = cfg_type (lookupConfig (cleanTitle (currentTitle st))),
               theme = cfg_theme (lookupConfig (cleanTitle (currentTitle st)))\<rparr>]
        else [])"
  by (simp add: flushSection_def Let_def)

lemma currentTitle_flushSection: "currentTitle (flushSection st) = currentTitle st"
  by (simp add: flushSection_def Let_def)

lemma titles_parse_lines:
  "map title (parsed (flushSection (parse_lines st ls))) =
     map title (parsed st) @
     map cleanTitle ((if currentTitle st \<noteq> [] then [currentTitle st] else []) @ filter is_heading ls)"
proof (induction ls arbitrary: st)
  case Nil
  show ?case by (simp add: parsed_flushSection)
next
  case (Cons l ls)
  show ?case
  proof (cases "is_heading l")
    case True
    then have "l \<noteq> []" by (rule is_heading_nonempty)
    have "parse_lines st (l # ls) = parse_lines ((flushSection st)\<lparr>currentTitle := l\<rparr>) ls"
      using True by simp
    then show ?thesis
      using True \<open>l \<noteq> []\<close> by (simp only: Cons.IH) (simp add: parsed_flushSection)
  next
    case False
    have "parse_lines st (l # ls) = parse_lines (st\<lparr>currentContent := currentContent st @ [l]\<rparr>) ls"
      using False by simp
    then show ?thesis
      using False by (simp only: Cons.IH) simp
  qed
qed

lemma titles_sections:
  "map title (sections s) = map cleanTitle (filter is_heading (split s [LF]))"
proof (cases "s = []")
  case True
  then show ?thesis by (simp add: sections_def split_def is_heading_def startsWith_def js_def)
next
  case False
  then show ?thesis by (simp add: sections_def titles_parse_lines)
qed

lemma flushSection_no_title:
  "currentTitle st = [] \<Longrightarrow> flushSection st = st\<lparr>currentContent := []\<rparr>"
  by (simp add: flushSection_def)

lemma parse_lines_preamble:
  "currentTitle st = [] \<Longrightarrow>
   flushSection (parse_lines st ls) =
   flushSection (parse_lines (st\<lparr>currentContent := []\<rparr>) (dropWhile (\<lambda>l. \<not> is_heading l) ls))"
proof (induction ls arbitrary: st)
  case Nil
  then show ?case by (simp add: flushSection_no_title)
next
  case (Cons l ls)
  show ?case
  proof (cases "is_heading l")
    case True
    with Cons.prems show ?thesis by (simp add: flushSection_no_title)
  next
    case False
    have "currentTitle (st\<lparr>currentContent := currentContent st @ [l]\<rparr>) = []"
      using Cons.prems by simp
    from Cons.IH [OF this] False show ?thesis by simp
  qed
qed

lemma sections_dropWhile:
  "sections s = parsed (flushSection (parse_lines \<lparr>parsed = [], currentTitle = [], currentContent = []\<rparr>
       (dropWhile (\<lambda>l. \<not> is_heading l) (split s [LF]))))"
proof (cases "s = []")
  case True
  then show ?thesis
    by (simp add: sections_def split_def is_heading_def startsWith_def js_def flushSection_def)
next
  case False
  then show ?thesis
    using parse_lines_preamble [of "\<lparr>parsed = [], currentTitle = [], currentContent = []\<rparr>" "split s [LF]"]
    by (simp add: sections_def)
qed

lemma split_LF_append: "split (a @ LF # b) [LF] = split a [LF] @ split b [LF]"
  by (simp add: split_def split_from_append)

subsection \<open>The example report\<close>

text \<open>
  C1. The text \<open>"## \<dots> Problem Detected\n- pollution\n## \<dots> Root Cause\ncontamination\n"\<close>,
  whose two headings start with the emoji U+1F50D and U+1F9E0 (the surrogate pairs
  D83D DD0D and D83E DDE0), parses into exactly two sections, in order:
  "Problem Detected", a list of theme danger with content "- pollution", and
  "Root Cause", a text of theme info with content "contamination". The second one is
  flushed at the end of the input, no heading following it.
\<close>

theorem example_report_sections:
  "sections (js ''## '' @ [0xD83D, 0xDD0D] @ js '' Problem Detected'' @ [LF] @ js ''- pollution'' @ [LF]
           @ js ''## '' @ [0xD83E, 0xDDE0] @ js '' Root Cause'' @ [LF] @ js ''contamination'' @ [LF]) =
   [\<lparr>title = js ''Problem Detected'', icon = js ''fa-triangle-exclamation'',
      content = js ''- pollution'', type = List, theme = Danger\<rparr>,
    \<lparr>title = js ''Root Cause'', icon = js ''fa-dna'',
      content = js ''contamination'', type = Text, theme = Info\<rparr>]"
  by code_simp

subsection \<open>Lines before the first heading\<close>

text \<open>
  C10. Lines before the first heading line are discarded. If no line of \<open>pre\<close> is a
  heading, then \<open>pre\<close> alone parses into no section at all, and a text that starts with
  the lines of \<open>pre\<close> parses into the very sections of the text without them, so that
  these lines are in no section's content.
\<close>

theorem preamble_discarded:
  "(\<forall>l \<in> set (split pre [LF]). \<not> is_heading l) \<longrightarrow>
     sections pre = [] \<and> sections (pre @ LF # rest) = sections rest"
proof
  assume nh: "\<forall>l \<in> set (split pre [LF]). \<not> is_heading l"
  then have d: "dropWhile (\<lambda>l. \<not> is_heading l) (split pre [LF]) = []" by simp
  have 1: "sections pre = []"
    by (simp only: sections_dropWhile [of pre] d) (simp add: flushSection_def)
  have "dropWhile (\<lambda>l. \<not> is_heading l) (split (pre @ LF # rest) [LF]) =
        dropWhile (\<lambda>l. \<not> is_heading l) (split rest [LF])"
    using nh by (simp add: split_LF_append)
  then have 2: "sections (pre @ LF # rest) = sections rest"
    by (simp only: sections_dropWhile [of "pre @ LF # rest"] sections_dropWhile [of rest])
  from 1 2 show "sections pre = [] \<and> sections (pre @ LF # rest) = sections rest" by simp
qed

theorem preamble_discarded_witness:
  "list_all (\<lambda>l. \<not> is_heading l) (split (js ''intro'') [LF]) \<and>
   sections (js ''intro'') = [] \<and>
   sections (js ''intro'' @ LF # js ''# A'' @ LF # js ''x'') =
     [\<lparr>title = js ''A'', icon = js ''fa-circle-info'', content = js ''x'', type = Text, theme = Neutral\<rparr>]"
proof -
  have h: "\<forall>l \<in> set (split (js ''intro'') [LF]). \<not> is_heading l"
    by code_simp
  have r: "sections (js ''# A'' @ LF # js ''x'') =
     [\<lparr>title = js ''A'', icon = js ''fa-circle-info'', content = js ''x'', type = Text, theme = Neutral\<rparr>]"
    by code_simp
  from preamble_discarded [of "js ''intro''" "js ''# A'' @ LF # js ''x''"] h r
  show ?thesis by (simp add: list_all_iff)
qed

subsection \<open>Titles as the text grows\<close>

text \<open>
  C8, as the specification has it, fails: a prefix that ends inside a heading line
  shows a title that the longer text replaces.
\<close>

theorem titles_monotone_counterexample:
  "prefix (js ''# A'') (js ''# AB'') \<and>
   js ''A'' \<in> set (map title (sections (js ''# A''))) \<and>
   js ''A'' \<notin> set (map title (sections (js ''# AB'')))"
  by code_simp

text \<open>
  C8, amended. For a prefix \<open>p\<close> of \<open>t\<close>, the titles of the sections of \<open>p\<close>, but for
  the last one, are the first titles of the sections of \<open>t\<close>, in the same order; so are
  all of them when the last line of \<open>p\<close> is not a heading line, and when \<open>p\<close> ends
  where a line of \<open>t\<close> ends (a line feed follows it).
\<close>

theorem titles_monotone:
  "(prefix p t \<longrightarrow> prefix (butlast (map title (sections p))) (map title (sections t))) \<and>
   (prefix p t \<and> \<not> is_heading (last (split p [LF])) \<longrightarrow>
      prefix (map title (sections p)) (map title (sections t))) \<and>
   prefix (map title (sections p)) (map title (sections (p @ LF # r)))"
proof (intro conjI impI)
  assume pt: "prefix p t"
  from split_from_prefix [OF pt, of LF "[]"] obtain L l' l R where
    sp: "split p [LF] = L @ [l']" and st: "split t [LF] = L @ l # R" and ll: "prefix l' l"
    by (auto simp: split_def)
  show "prefix (butlast (map title (sections p))) (map title (sections t))"
  proof (cases "is_heading l'")
    case True
    then show ?thesis by (simp add: titles_sections sp st)
  next
    case False
    have "prefix (butlast (map cleanTitle (filter is_heading L))) (map cleanTitle (filter is_heading L))"
      by (rule prefixeq_butlast)
    then show ?thesis using False
      by (simp add: titles_sections sp st)
  qed
next
  assume "prefix p t \<and> \<not> is_heading (last (split p [LF]))"
  then have pt: "prefix p t" and nh: "\<not> is_heading (last (split p [LF]))" by simp_all
  from split_from_prefix [OF pt, of LF "[]"] obtain L l' l R where
    sp: "split p [LF] = L @ [l']" and st: "split t [LF] = L @ l # R" and ll: "prefix l' l"
    by (auto simp: split_def)
  from nh sp have "\<not> is_heading l'" by simp
  then show "prefix (map title (sections p)) (map title (sections t))"
    by (simp add: titles_sections sp st)
next
  show "prefix (map title (sections p)) (map title (sections (p @ LF # r)))"
    by (simp add: titles_sections split_LF_append)
qed

theorem titles_monotone_witness:
  "prefix (js ''# A'' @ LF # js ''x'') (js ''# A'' @ LF # js ''x'' @ LF # js ''# B'') \<and>
   \<not> is_heading (last (split (js ''# A'' @ LF # js ''x'') [LF])) \<and>
   prefix (butlast (map title (sections (js ''# A'' @ LF # js ''x''))))
     (map title (sections (js ''# A'' @ LF # js ''x'' @ LF # js ''# B''))) \<and>
   prefix (map title (sections (js ''# A'' @ LF # js ''x'')))
     (map title (sections (js ''# A'' @ LF # js ''x'' @ LF # js ''# B'')))"
proof -
  have p: "prefix (js ''# A'' @ LF # js ''x'') (js ''# A'' @ LF # js ''x'' @ LF # js ''# B'')"
    by simp
  have h: "\<not> is_heading (last (split (js ''# A'' @ LF # js ''x'') [LF]))"
    by code_simp
  from titles_monotone [of "js ''# A'' @ LF # js ''x''" "js ''# A'' @ LF # js ''x'' @ LF # js ''# B''" "[]"] p h
  show ?thesis by blast
qed


section \<open>Properties of the error message\<close>

lemma includes_js_refl: "includes_js s s"
  by (cases s) simp_all

lemma guarded_message:
  assumes "alt \<noteq> js ''[object Object]''" and "alt \<noteq> js ''{}''"
  shows "(if includes_js msg (js ''[object Object]'') \<or> msg = js ''{}'' then alt else msg) \<noteq> js ''[object Object]'' \<and>
         (if includes_js msg (js ''[object Object]'') \<or> msg = js ''{}'' then alt else msg) \<noteq> js ''{}''"
  using assms includes_js_refl [of "js ''[object Object]''"] by auto

lemma api_error_not_artifact:
  "js ''API Error: '' @ s \<noteq> js ''[object Object]''" "js ''API Error: '' @ s \<noteq> js ''{}''"
  by (simp_all add: js_def)

lemma critical_not_artifact:
  "js ''Critical Error: The server returned an invalid response format.'' \<noteq> js ''[object Object]''"
  "js ''Critical Error: The server returned an invalid response format.'' \<noteq> js ''{}''"
  by (simp_all add: js_def)

lemma empty_object_message:
  "extractErrorMessage env (JObj ObjectPrototype []) = Inr (js ''An unknown system error occurred.'')"
proof -
  have n: "\<not> includes_js (js ''An unknown system error occurred.'') (js ''[object Object]'')"
    by code_simp
  have m: "js ''An unknown system error occurred.'' \<noteq> js ''{}''"
    by (simp add: js_def)
  show ?thesis
    using n m by (simp add: extractErrorMessage_def opt_chain_def stringify_def String_of_def Let_def)
qed

lemma extractErrorMessage_clean:
  assumes "extractErrorMessage env err = Inr s"
  shows "s \<noteq> js ''[object Object]'' \<and> s \<noteq> js ''{}''"
proof -
  have alt: "\<And>st. (if truthy st \<and> typeof_string st
            then js ''API Error: '' @ string_value st
            else js ''Critical Error: The server returned an invalid response format.'') \<noteq> js ''[object Object]''
          \<and> (if truthy st \<and> typeof_string st
            then js ''API Error: '' @ string_value st
            else js ''Critical Error: The server returned an invalid response format.'') \<noteq> js ''{}''"
    using api_error_not_artifact critical_not_artifact by presburger
  from assms obtain msg where
    s: "s = (if includes_js msg (js ''[object Object]'') \<or> msg = js ''{}''
             then
               (if truthy (opt_chain err (js ''statusText'')) \<and> typeof_string (opt_chain err (js ''statusText''))
                then js ''API Error: '' @ string_value (opt_chain err (js ''statusText''))
                else js ''Critical Error: The server returned an invalid response format.'')
             else msg)"
    unfolding extractErrorMessage_def Let_def by (auto split: option.splits)
  show ?thesis
    unfolding s by (rule guarded_message) (simp_all only: alt not_False_eq_True)
qed



section \<open>Properties of the context encoder\<close>

lemma split_from_unfold:
  "s \<noteq> [] \<Longrightarrow>
   split_from sep cur s =
     (if sep \<noteq> [] \<and> prefix sep s then cur # split_from sep [] (drop (length sep) s)
      else split_from sep (cur @ [hd s]) (tl s))"
  by (cases s) simp_all

lemma split_from_absent:
  "\<not> includes_js s sep \<Longrightarrow> split_from sep cur s = [cur @ s]"
proof (induction s arbitrary: cur)
  case Nil
  show ?case by simp
next
  case (Cons c cs)
  then have "\<not> prefix sep (c # cs)" and "\<not> includes_js cs sep" by simp_all
  with Cons.IH [of "cur @ [c]"] show ?case by simp
qed

lemma includes_js_append: "includes_js (a @ s @ b) s"
proof (induction a)
  case Nil
  show ?case
  proof (cases "s @ b")
    case Nil
    then show ?thesis by simp
  next
    case (Cons d ds)
    have "prefix s (s @ b)" by simp
    with Cons show ?thesis by simp
  qed
next
  case (Cons c a)
  then show ?case by simp
qed

lemma split_from_first:
  assumes "sep = bl @ [x]" and "\<not> includes_js (pre @ bl) sep"
  shows "split_from sep cur (pre @ sep @ rest) = (cur @ pre) # split_from sep [] rest"
  using assms(2)
proof (induction pre arbitrary: cur)
  case Nil
  have "sep @ rest \<noteq> []" using assms(1) by simp
  from split_from_unfold [OF this, of sep cur] assms(1) show ?case by simp
next
  case (Cons c pre)
  from Cons.prems have np: "\<not> prefix sep (c # pre @ bl)" and ni: "\<not> includes_js (pre @ bl) sep"
    by simp_all
  have "\<not> prefix sep ((c # pre @ bl) @ (x # rest))"
  proof
    assume "prefix sep ((c # pre @ bl) @ (x # rest))"
    then have "prefix sep (c # pre @ bl) \<or> (\<exists>us. sep = (c # pre @ bl) @ us \<and> prefix us (x # rest))"
      by (simp only: prefix_append)
    then show False
    proof
      assume "prefix sep (c # pre @ bl)" with np show False ..
    next
      assume "\<exists>us. sep = (c # pre @ bl) @ us \<and> prefix us (x # rest)"
      then obtain us where "sep = (c # pre @ bl) @ us" by blast
      then have "length sep = Suc (length pre + length bl + length us)" by simp
      moreover have "length sep = Suc (length bl)" using assms(1) by simp
      ultimately have "us = []" by simp
      with \<open>sep = (c # pre @ bl) @ us\<close> have "prefix sep (c # pre @ bl)" by simp
      with np show False ..
    qed
  qed
  then have "\<not> prefix sep (c # (pre @ sep @ rest))" using assms(1) by simp
  then have "split_from sep cur ((c # pre) @ sep @ rest) = split_from sep (cur @ [c]) (pre @ sep @ rest)"
    by simp
  with Cons.IH [OF ni, of "cur @ [c]"] show ?case by simp
qed

lemma cleanBase64_data_url:
  assumes "\<not> includes_js (pre @ js ''base64'') (js ''base64,'')"
    and "\<not> includes_js payload (js ''base64,'')"
  shows "cleanBase64 (pre @ js ''base64,'' @ payload) = Some payload"
proof -
  have sep: "js ''base64,'' = js ''base64'' @ [0x2C]" by (simp add: js_def)
  have ne: "js ''base64,'' \<noteq> []" by (simp add: js_def)
  have "split (pre @ js ''base64,'' @ payload) (js ''base64,'') = [pre, payload]"
    using split_from_first [OF sep assms(1), of "[]" payload] split_from_absent [OF assms(2), of "[]"] ne
    by (simp add: split_def)
  then show ?thesis
    using includes_js_append [of pre "js ''base64,''" payload] by (simp add: cleanBase64_def)
qed

lemma cleanBase64_plain: "\<not> includes_js b (js ''base64,'') \<Longrightarrow> cleanBase64 b = Some b"
  by (simp add: cleanBase64_def)

text \<open>
  C9. The parts of the analysis request are, in this order: the image part if an image
  and its mime type are given, the audio part if an audio and its mime type are given,
  then the text part if the text is not empty; with no media and no text the single
  part is the default prompt, so the sequence is never empty. A media part keeps its
  mime type, and its payload is what follows \<open>"base64,"\<close> in a data URL (the separator
  occurring there once), or the data as given when there is no such prefix.
\<close>

theorem analyze_parts_order:
  "analyze_parts t bi mi ba ma =
     (if truthy_str bi \<and> truthy_str mi then [InlineData (cleanBase64 (the bi)) (the mi)] else []) @
     (if truthy_str ba \<and> truthy_str ma then [InlineData (cleanBase64 (the ba)) (the ma)] else []) @
     (if t \<noteq> [] then [TextPart t]
      else if \<not> (truthy_str bi \<and> truthy_str mi) \<and> \<not> (truthy_str ba \<and> truthy_str ma)
      then [TextPart default_prompt] else []) \<and>
   analyze_parts t bi mi ba ma \<noteq> [] \<and>
   (\<not> includes_js (pre @ js ''base64'') (js ''base64,'') \<and> \<not> includes_js payload (js ''base64,'')
      \<longrightarrow> cleanBase64 (pre @ js ''base64,'' @ payload) = Some payload) \<and>
   (\<not> includes_js b (js ''base64,'') \<longrightarrow> cleanBase64 b = Some b)"
  using cleanBase64_data_url [of pre payload] cleanBase64_plain [of b]
  by (simp add: analyze_parts_def push_media_def Let_def)

theorem analyze_parts_order_witness:
  "\<not> includes_js (js ''data:image/png;'' @ js ''base64'') (js ''base64,'') \<and>
   \<not> includes_js (js ''AAAA'') (js ''base64,'') \<and>
   \<not> includes_js (js ''AAAA'') (js ''base64,'') \<and>
   cleanBase64 (js ''data:image/png;'' @ js ''base64,'' @ js ''AAAA'') = Some (js ''AAAA'') \<and>
   cleanBase64 (js ''AAAA'') = Some (js ''AAAA'') \<and>
   analyze_parts (js ''check this river'') (Some (js ''data:image/png;'' @ js ''base64,'' @ js ''AAAA''))
       (Some (js ''image/png'')) None None =
     [InlineData (Some (js ''AAAA'')) (js ''image/png''), TextPart (js ''check this river'')]"
proof -
  have h1: "\<not> includes_js (js ''data:image/png;'' @ js ''base64'') (js ''base64,'')" by code_simp
  have h2: "\<not> includes_js (js ''AAAA'') (js ''base64,'')" by code_simp
  have t: "js ''check this river'' \<noteq> []" "js ''image/png'' \<noteq> []" "js ''AAAA'' \<noteq> []"
    by (simp_all add: js_def)
  from analyze_parts_order [of "js ''check this river''"
      "Some (js ''data:image/png;'' @ js ''base64,'' @ js ''AAAA'')" "Some (js ''image/png'')" None None
      "js ''data:image/png;''" "js ''AAAA''" "js ''AAAA''"] h1 h2 t
  show ?thesis by (simp add: truthy_str_def)
qed


section \<open>The captured context and the request\<close>

lemma foldl_on_analysis_update_context:
  "initialContextParts (foldl on_analysis_update st us) = initialContextParts st"
  by (induction us arbitrary: st) (simp_all add: on_analysis_update_def)

lemma handleAnalyze_context:
  "initialContextParts (fst (handleAnalyze env key provider st txt fileData audioData)) =
     contextParts_of txt fileData audioData"
  by (simp add: handleAnalyze_def Let_def foldl_on_analysis_update_context split: option.splits)

lemma handleAnalyze_sent:
  "\<not> api_key_missing key \<Longrightarrow>
   snd (handleAnalyze env key provider st txt fileData audioData) =
     Some [\<lparr>role = User,
            parts = analyze_parts txt (map_option base64 fileData) (map_option mimeType fileData)
                      (map_option base64 audioData) (map_option mimeType audioData)\<rparr>]"
  by (simp add: handleAnalyze_def analyzeContentStream_def Let_def split: prod.splits)

text \<open>
  C4. The parts that \<open>handleAnalyze\<close> stores for the follow-up turns are not always the
  parts of the request it sends. For a file whose mime type is the empty string the
  stored context has an inline part that the request lacks; for the empty input the
  stored fallback is "Analyze world data." and the request's is the default prompt.
\<close>

theorem context_differs_from_request:
  "initialContextParts (fst (handleAnalyze env (Some (js ''key'')) provider st (js ''check this river'')
       (Some \<lparr>base64 = js ''data:application/octet-stream;base64,AAAA'', mimeType = []\<rparr>) None)) =
     [InlineData (Some (js ''AAAA'')) [], TextPart (js ''check this river'')] \<and>
   snd (handleAnalyze env (Some (js ''key'')) provider st (js ''check this river'')
       (Some \<lparr>base64 = js ''data:application/octet-stream;base64,AAAA'', mimeType = []\<rparr>) None) =
     Some [\<lparr>role = User, parts = [TextPart (js ''check this river'')]\<rparr>] \<and>
   initialContextParts (fst (handleAnalyze env (Some (js ''key'')) provider st [] None None)) =
     [TextPart (js ''Analyze world data.'')] \<and>
   snd (handleAnalyze env (Some (js ''key'')) provider st [] None None) =
     Some [\<lparr>role = User, parts = [TextPart
       (js ''Analyze the current state of the world based on available data and general knowledge.'')]\<rparr>]"
proof -
  have k: "\<not> api_key_missing (Some (js ''key''))"
    by (simp add: api_key_missing_def truthy_str_def js_def)
  have s: "split (js ''data:application/octet-stream;base64,AAAA'') (js ''base64,'') =
           [js ''data:application/octet-stream;'', js ''AAAA'']"
    by code_simp
  have t: "js ''check this river'' \<noteq> []" by (simp add: js_def)
  have 1: "contextParts_of (js ''check this river'')
       (Some \<lparr>base64 = js ''data:application/octet-stream;base64,AAAA'', mimeType = []\<rparr>) None =
       [InlineData (Some (js ''AAAA'')) [], TextPart (js ''check this river'')]"
    using t by (simp add: contextParts_of_def push_context_def s)
  have 2: "analyze_parts (js ''check this river'') (Some (js ''data:application/octet-stream;base64,AAAA''))
       (Some []) None None = [TextPart (js ''check this river'')]"
    using t by (simp add: analyze_parts_def push_media_def truthy_str_def)
  have 3: "contextParts_of [] None None = [TextPart (js ''Analyze world data.'')]"
    by (simp add: contextParts_of_def push_context_def)
  have 4: "analyze_parts [] None None None None = [TextPart default_prompt]"
    by (simp add: analyze_parts_def push_media_def truthy_str_def)
  show ?thesis
    using 1 2 3 4 by (simp add: handleAnalyze_context handleAnalyze_sent [OF k] default_prompt_def)
qed


section \<open>Properties of the two streaming calls\<close>

lemma foldl_push_turns:
  "foldl (\<lambda>contents msg. contents @ [\<lparr>role = msg_role msg, parts = [TextPart (msg_text msg)]\<rparr>]) acc h =
   acc @ map (\<lambda>msg. \<lparr>role = msg_role msg, parts = [TextPart (msg_text msg)]\<rparr>) h"
  by (induction h arbitrary: acc) simp_all

lemma continue_loop_no_grounding: "u \<in> set (continue_loop fullText chunks) \<Longrightarrow> snd u = None"
  by (induction chunks arbitrary: fullText) (auto simp: Let_def)

lemma continue_updates_no_grounding:
  "u \<in> set (updates (continueConversationStream env key provider h m ctx)) \<Longrightarrow> snd u = None"
  by (auto simp: continueConversationStream_def Let_def split: prod.splits if_splits
      dest: continue_loop_no_grounding)

text \<open>
  C3, amended. With context parts that are not empty, the turns of the continuation
  request are: a user turn with exactly these parts, one turn for each prior message in
  order, with its role and its text as the only part, and a last user turn with the new
  message as the only part. With no context parts the opening turn is left out. These
  are the contents sent, and no update of the continuation carries grounding metadata,
  whatever the chunks hold.
\<close>

theorem continue_contents_turns:
  "(ctx \<noteq> [] \<longrightarrow>
      continue_contents h m ctx =
        \<lparr>role = User, parts = ctx\<rparr> #
        map (\<lambda>msg. \<lparr>role = msg_role msg, parts = [TextPart (msg_text msg)]\<rparr>) h @
        [\<lparr>role = User, parts = [TextPart m]\<rparr>]) \<and>
   continue_contents h m [] =
        map (\<lambda>msg. \<lparr>role = msg_role msg, parts = [TextPart (msg_text msg)]\<rparr>) h @
        [\<lparr>role = User, parts = [TextPart m]\<rparr>] \<and>
   (\<not> api_key_missing key \<longrightarrow>
      sent (continueConversationStream env key provider h m ctx) = Some (continue_contents h m ctx)) \<and>
   (\<forall>u \<in> set (updates (continueConversationStream env key provider h m ctx)). snd u = None)"
  using continue_updates_no_grounding [of _ env key provider h m ctx]
  by (auto simp: continue_contents_def foldl_push_turns Let_def continueConversationStream_def
      split: prod.splits)

text \<open>
  C3, as the specification has it, fails for empty context parts: the request then has
  no opening turn at all, not an opening turn without parts.
\<close>

theorem continue_contents_counterexample:
  "continue_contents [] (js ''hi'') [] = [\<lparr>role = User, parts = [TextPart (js ''hi'')]\<rparr>] \<and>
   continue_contents [] (js ''hi'') [] \<noteq>
     \<lparr>role = User, parts = []\<rparr> #
     map (\<lambda>msg. \<lparr>role = msg_role msg, parts = [TextPart (msg_text msg)]\<rparr>) [] @
     [\<lparr>role = User, parts = [TextPart (js ''hi'')]\<rparr>]"
  by (simp add: continue_contents_def)

lemma length_analyze_loop: "length (analyze_loop fullText acc chunks) = length chunks"
  by (induction chunks arbitrary: fullText acc) (simp_all add: Let_def)

lemma prefix_add_text: "prefix fullText (add_text fullText chunk)"
  by (simp add: add_text_def split: option.splits)

lemma analyze_loop_extends:
  "u \<in> set (analyze_loop fullText acc chunks) \<Longrightarrow> prefix fullText (fst u)"
proof (induction chunks arbitrary: fullText acc)
  case Nil
  then show ?case by simp
next
  case (Cons c cs)
  from Cons.prems have
    "u = (add_text fullText c, Some (add_grounding acc c)) \<or>
     u \<in> set (analyze_loop (add_text fullText c) (add_grounding acc c) cs)"
    by (simp add: Let_def)
  then show ?case
  proof
    assume "u = (add_text fullText c, Some (add_grounding acc c))"
    then show ?thesis by (simp add: prefix_add_text)
  next
    assume "u \<in> set (analyze_loop (add_text fullText c) (add_grounding acc c) cs)"
    from Cons.IH [OF this] prefix_add_text [of fullText c] show ?thesis
      by (rule_tac prefix_order.trans)
  qed
qed

lemma analyze_loop_text_prefix:
  "i \<le> j \<Longrightarrow> j < length chunks \<Longrightarrow>
   prefix (fst (analyze_loop fullText acc chunks ! i)) (fst (analyze_loop fullText acc chunks ! j))"
proof (induction chunks arbitrary: fullText acc i j)
  case Nil
  then show ?case by simp
next
  case (Cons c cs)
  show ?case
  proof (cases j)
    case 0
    with Cons.prems show ?thesis by simp
  next
    case (Suc j')
    show ?thesis
    proof (cases i)
      case 0
      have "j' < length (analyze_loop (add_text fullText c) (add_grounding acc c) cs)"
        using Cons.prems Suc by (simp add: length_analyze_loop)
      then have "analyze_loop (add_text fullText c) (add_grounding acc c) cs ! j'
            \<in> set (analyze_loop (add_text fullText c) (add_grounding acc c) cs)"
        by (rule nth_mem)
      from analyze_loop_extends [OF this] 0 Suc show ?thesis by (simp add: Let_def)
    next
      case (Suc i')
      with Cons.prems \<open>j = Suc j'\<close> have "i' \<le> j'" "j' < length cs" by simp_all
      from Cons.IH [OF this] Suc \<open>j = Suc j'\<close> show ?thesis by (simp add: Let_def)
    qed
  qed
qed

text \<open>
  C5. A streaming analysis call makes one update for each chunk of the stream, with or
  without a text delta, and the text of an update is a prefix of the text of every
  later one, so no longer than it.
\<close>

theorem analyze_updates_once_per_chunk:
  "\<not> api_key_missing key \<longrightarrow>
     length (updates (analyzeContentStream env key provider t bi mi ba ma)) =
       length (fst (provider [\<lparr>role = User, parts = analyze_parts t bi mi ba ma\<rparr>])) \<and>
     (\<forall>i j. i \<le> j \<and> j < length (updates (analyzeContentStream env key provider t bi mi ba ma)) \<longrightarrow>
        prefix (fst (updates (analyzeContentStream env key provider t bi mi ba ma) ! i))
               (fst (updates (analyzeContentStream env key provider t bi mi ba ma) ! j)) \<and>
        length (fst (updates (analyzeContentStream env key provider t bi mi ba ma) ! i))
          \<le> length (fst (updates (analyzeContentStream env key provider t bi mi ba ma) ! j)))"
proof
  assume k: "\<not> api_key_missing key"
  obtain chunks failure where p: "provider [\<lparr>role = User, parts = analyze_parts t bi mi ba ma\<rparr>] = (chunks, failure)"
    by (cases "provider [\<lparr>role = User, parts = analyze_parts t bi mi ba ma\<rparr>]")
  have u: "updates (analyzeContentStream env key provider t bi mi ba ma) =
        analyze_loop [] \<lparr>groundingChunks = [], webSearchQueries = None\<rparr> chunks"
    using k p by (simp add: analyzeContentStream_def Let_def)
  show "length (updates (analyzeContentStream env key provider t bi mi ba ma)) =
       length (fst (provider [\<lparr>role = User, parts = analyze_parts t bi mi ba ma\<rparr>])) \<and>
     (\<forall>i j. i \<le> j \<and> j < length (updates (analyzeContentStream env key provider t bi mi ba ma)) \<longrightarrow>
        prefix (fst (updates (analyzeContentStream env key provider t bi mi ba ma) ! i))
               (fst (updates (analyzeContentStream env key provider t bi mi ba ma) ! j)) \<and>
        length (fst (updates (analyzeContentStream env key provider t bi mi ba ma) ! i))
          \<le> length (fst (updates (analyzeContentStream env key provider t bi mi ba ma) ! j)))"
    unfolding u p
    by (auto simp: length_analyze_loop intro: analyze_loop_text_prefix
        prefix_length_le [OF analyze_loop_text_prefix])
qed


section \<open>Properties of the grounding sources\<close>

lemma prefix_add_grounding: "prefix (groundingChunks acc) (groundingChunks (add_grounding acc chunk))"
  by (simp add: add_grounding_def Let_def split: option.splits)

lemma analyze_loop_grounding_step:
  "Suc n < length chunks \<Longrightarrow>
   \<exists>g g'. snd (analyze_loop fullText acc chunks ! n) = Some g \<and>
          snd (analyze_loop fullText acc chunks ! Suc n) = Some g' \<and>
          prefix (groundingChunks g) (groundingChunks g')"
proof (induction chunks arbitrary: fullText acc n)
  case Nil
  then show ?case by simp
next
  case (Cons c cs)
  show ?case
  proof (cases n)
    case 0
    with Cons.prems obtain d ds where cs: "cs = d # ds" by (cases cs) auto
    show ?thesis using 0 cs by (simp add: Let_def prefix_add_grounding)
  next
    case (Suc n')
    with Cons.prems have "Suc n' < length cs" by simp
    from Cons.IH [OF this] Suc show ?thesis by (simp add: Let_def)
  qed
qed

lemma keys_Map_set:
  "map fst (Map_set m k v) = (if k \<in> fst ` set m then map fst m else map fst m @ [k])"
  by (induction m) force+

lemma distinct_Map_set: "distinct (map fst m) \<Longrightarrow> distinct (map fst (Map_set m k v))"
  by (simp add: keys_Map_set)

lemma map_of_Map_set: "map_of (Map_set m k v) = (map_of m)(k \<mapsto> v)"
  by (induction m) (auto simp: fun_upd_twist)

lemma foldl_Map_set:
  "distinct (map fst m) \<Longrightarrow>
   distinct (map fst (foldl (\<lambda>m (k, v). Map_set m k v) m es)) \<and>
   map_of (foldl (\<lambda>m (k, v). Map_set m k v) m es) = map_of m ++ map_of (rev es) \<and>
   fst ` set (foldl (\<lambda>m (k, v). Map_set m k v) m es) = fst ` set m \<union> fst ` set es"
proof (induction es arbitrary: m)
  case Nil
  then show ?case by simp
next
  case (Cons e es)
  obtain k v where e: "e = (k, v)" by (cases e)
  have d: "distinct (map fst (Map_set m k v))" using Cons.prems by (rule distinct_Map_set)
  have "fst ` set (Map_set m k v) = insert k (fst ` set m)"
  proof -
    have "fst ` set (Map_set m k v) = set (map fst (Map_set m k v))" by simp
    also have "\<dots> = insert k (fst ` set m)" by (simp only: keys_Map_set) auto
    finally show ?thesis .
  qed
  with Cons.IH [OF d] show ?case
    by (simp add: e map_of_Map_set map_add_upd_left) (auto simp: map_add_def fun_eq_iff split: option.splits)
qed

lemma new_Map_props:
  "distinct (map fst (new_Map es)) \<and> map_of (new_Map es) = map_of (rev es) \<and>
   fst ` set (new_Map es) = fst ` set es"
  using foldl_Map_set [of "[]" es] by (simp add: new_Map_def)

lemma map_of_keyed: "map_of (map (\<lambda>w. (f w, w)) xs) k = List.find (\<lambda>w. f w = k) xs"
  by (induction xs) auto

lemma rendered_sources:
  assumes "renderGrounding (Some g) = Some srcs"
  shows "distinct (map uri srcs) \<and>
         uri ` set srcs = uri ` set (List.map_filter web (groundingChunks g)) \<and>
         (\<forall>s \<in> set srcs. List.find (\<lambda>w. uri w = uri s) (rev (List.map_filter web (groundingChunks g))) = Some s)"
proof -
  define sources where "sources = List.map_filter web (groundingChunks g)"
  define es where "es = map (\<lambda>item. (uri item, item)) sources"
  from assms have srcs: "srcs = map snd (new_Map es)"
    by (simp add: renderGrounding_def Let_def sources_def es_def split: if_splits)
  from new_Map_props [of es] have d: "distinct (map fst (new_Map es))"
    and mo: "map_of (new_Map es) = map_of (rev es)" and ks: "fst ` set (new_Map es) = fst ` set es"
    by simp_all
  have val: "\<And>k s. (k, s) \<in> set (new_Map es) \<Longrightarrow> k = uri s \<and> List.find (\<lambda>w. uri w = uri s) (rev sources) = Some s"
  proof -
    fix k s assume "(k, s) \<in> set (new_Map es)"
    with d have "map_of (new_Map es) k = Some s" by simp
    with mo have m: "map_of (rev es) k = Some s" by simp
    then have "(k, s) \<in> set (rev es)" by (rule map_of_SomeD)
    then have k: "k = uri s" by (auto simp: es_def)
    have "rev es = map (\<lambda>w. (uri w, w)) (rev sources)" by (simp add: es_def rev_map)
    with m k show "k = uri s \<and> List.find (\<lambda>w. uri w = uri s) (rev sources) = Some s"
      by (simp add: map_of_keyed)
  qed
  have keys: "map uri srcs = map fst (new_Map es)"
    unfolding srcs using val by (induction "new_Map es") auto
  have 1: "distinct (map uri srcs)" using d keys by simp
  have "uri ` set srcs = set (map uri srcs)" by simp
  also have "\<dots> = fst ` set (new_Map es)" by (simp only: keys set_map)
  also have "\<dots> = uri ` set sources" using ks by (auto simp: es_def image_iff)
  finally have 2: "uri ` set srcs = uri ` set sources" .
  have 3: "\<forall>s \<in> set srcs. List.find (\<lambda>w. uri w = uri s) (rev sources) = Some s"
  proof
    fix s assume "s \<in> set srcs"
    then obtain k where "(k, s) \<in> set (new_Map es)" by (auto simp: srcs)
    from val [OF this] show "List.find (\<lambda>w. uri w = uri s) (rev sources) = Some s" by simp
  qed
  from 1 2 3 show ?thesis by (simp add: sources_def)
qed

lemma analyze_updates_grounding_step:
  "Suc n < length (updates (analyzeContentStream env key provider t bi mi ba ma)) \<Longrightarrow>
   \<exists>g g'. snd (updates (analyzeContentStream env key provider t bi mi ba ma) ! n) = Some g \<and>
          snd (updates (analyzeContentStream env key provider t bi mi ba ma) ! Suc n) = Some g' \<and>
          prefix (groundingChunks g) (groundingChunks g')"
proof (cases "api_key_missing key")
  case True
  assume "Suc n < length (updates (analyzeContentStream env key provider t bi mi ba ma))"
  with True show ?thesis by (simp add: analyzeContentStream_def)
next
  case False
  assume a: "Suc n < length (updates (analyzeContentStream env key provider t bi mi ba ma))"
  obtain chunks failure where p: "provider [\<lparr>role = User, parts = analyze_parts t bi mi ba ma\<rparr>] = (chunks, failure)"
    by (cases "provider [\<lparr>role = User, parts = analyze_parts t bi mi ba ma\<rparr>]")
  have u: "updates (analyzeContentStream env key provider t bi mi ba ma) =
        analyze_loop [] \<lparr>groundingChunks = [], webSearchQueries = None\<rparr> chunks"
    using False p by (simp add: analyzeContentStream_def Let_def)
  from a have "Suc n < length chunks" by (simp add: u length_analyze_loop)
  from analyze_loop_grounding_step [OF this] show ?thesis by (simp only: u)
qed

lemma example_sources_result:
  "result (fst (handleAnalyze env (Some (js ''key''))
       (\<lambda>contents. ([ex_source_chunk (js ''a'') t1, ex_source_chunk (js ''b'') t2,
                       ex_source_chunk (js ''a'') t3], None))
       st txt None None)) =
     Some \<lparr>res_text = [],
           res_groundingMetadata = Some
             \<lparr>groundingChunks = [\<lparr>web = Some \<lparr>uri = js ''a'', web_title = t1\<rparr>\<rparr>,
                                 \<lparr>web = Some \<lparr>uri = js ''b'', web_title = t2\<rparr>\<rparr>,
                                 \<lparr>web = Some \<lparr>uri = js ''a'', web_title = t3\<rparr>\<rparr>],
              webSearchQueries = None\<rparr>\<rparr>"
proof -
  have k: "\<not> api_key_missing (Some (js ''key''))"
    by (simp add: api_key_missing_def truthy_str_def js_def)
  show ?thesis
    using k by (simp add: handleAnalyze_def analyzeContentStream_def Let_def on_analysis_update_def
        add_text_def add_grounding_def)
qed

lemma example_sources_rendered:
  "renderGrounding (Some
      \<lparr>groundingChunks = [\<lparr>web = Some \<lparr>uri = js ''a'', web_title = t1\<rparr>\<rparr>,
                          \<lparr>web = Some \<lparr>uri = js ''b'', web_title = t2\<rparr>\<rparr>,
                          \<lparr>web = Some \<lparr>uri = js ''a'', web_title = t3\<rparr>\<rparr>],
       webSearchQueries = None\<rparr>) =
   Some [\<lparr>uri = js ''a'', web_title = t3\<rparr>, \<lparr>uri = js ''b'', web_title = t2\<rparr>]"
  by (simp add: renderGrounding_def List.map_filter_def new_Map_def js_def Let_def)

text \<open>
  C6. The list of grounding chunks of an update is a prefix of the list of the next
  update. The rendered sources have distinct URIs, the URIs of the chunks that carry a
  web source, and each rendered source is the last such chunk with its URI. For three
  chunks with the URIs a, b, a, one in each update, the result holds the three chunks
  and the rendered list has two entries, the one for a with the title of the third
  chunk. (The source passes one accumulator object to every update and extends it in
  place; the lists compared are its values at the calls.)
\<close>

theorem grounding_append_only_deduplicated:
  "(\<forall>n. Suc n < length (updates (analyzeContentStream env key provider t bi mi ba ma)) \<longrightarrow>
      (\<exists>g g'. snd (updates (analyzeContentStream env key provider t bi mi ba ma) ! n) = Some g \<and>
              snd (updates (analyzeContentStream env key provider t bi mi ba ma) ! Suc n) = Some g' \<and>
              prefix (groundingChunks g) (groundingChunks g'))) \<and>
   (renderGrounding (Some gm) = Some srcs \<longrightarrow>
      distinct (map uri srcs) \<and>
      uri ` set srcs = uri ` set (List.map_filter web (groundingChunks gm)) \<and>
      (\<forall>s \<in> set srcs.
         List.find (\<lambda>w. uri w = uri s) (rev (List.map_filter web (groundingChunks gm))) = Some s)) \<and>
   result (fst (handleAnalyze env (Some (js ''key''))
       (\<lambda>contents. ([ex_source_chunk (js ''a'') t1, ex_source_chunk (js ''b'') t2,
                       ex_source_chunk (js ''a'') t3], None))
       st txt None None)) =
     Some \<lparr>res_text = [],
           res_groundingMetadata = Some
             \<lparr>groundingChunks = [\<lparr>web = Some \<lparr>uri = js ''a'', web_title = t1\<rparr>\<rparr>,
                                 \<lparr>web = Some \<lparr>uri = js ''b'', web_title = t2\<rparr>\<rparr>,
                                 \<lparr>web = Some \<lparr>uri = js ''a'', web_title = t3\<rparr>\<rparr>],
              webSearchQueries = None\<rparr>\<rparr> \<and>
   renderGrounding (Some
      \<lparr>groundingChunks = [\<lparr>web = Some \<lparr>uri = js ''a'', web_title = t1\<rparr>\<rparr>,
                          \<lparr>web = Some \<lparr>uri = js ''b'', web_title = t2\<rparr>\<rparr>,
                          \<lparr>web = Some \<lparr>uri = js ''a'', web_title = t3\<rparr>\<rparr>],
       webSearchQueries = None\<rparr>) =
   Some [\<lparr>uri = js ''a'', web_title = t3\<rparr>, \<lparr>uri = js ''b'', web_title = t2\<rparr>]"
proof (intro conjI allI impI)
  fix n
  assume "Suc n < length (updates (analyzeContentStream env key provider t bi mi ba ma))"
  then show "\<exists>g g'. snd (updates (analyzeContentStream env key provider t bi mi ba ma) ! n) = Some g \<and>
              snd (updates (analyzeContentStream env key provider t bi mi ba ma) ! Suc n) = Some g' \<and>
              prefix (groundingChunks g) (groundingChunks g')"
    by (rule analyze_updates_grounding_step)
next
  assume r: "renderGrounding (Some gm) = Some srcs"
  from rendered_sources [OF r] show "distinct (map uri srcs)" by simp
  from rendered_sources [OF r]
  show "uri ` set srcs = uri ` set (List.map_filter web (groundingChunks gm))" by simp
  from rendered_sources [OF r]
  show "\<forall>s \<in> set srcs.
         List.find (\<lambda>w. uri w = uri s) (rev (List.map_filter web (groundingChunks gm))) = Some s"
    by simp
qed (rule example_sources_result example_sources_rendered)+


section \<open>Properties of the follow-up chat\<close>

lemma replace_last_props:
  "prev \<noteq> [] \<Longrightarrow>
   replace_last prev m \<noteq> [] \<and> length (replace_last prev m) = length prev \<and>
   butlast (replace_last prev m) = butlast prev \<and> last (replace_last prev m) = m"
  by (simp add: replace_last_def)

lemma stream_history_entries:
  "prev \<noteq> [] \<Longrightarrow> h \<in> set (stream_history now k prev us) \<Longrightarrow>
   length h = length prev \<and> butlast h = butlast prev \<and> msg_role (last h) = Model"
proof (induction us arbitrary: prev k)
  case Nil
  then show ?case by simp
next
  case (Cons u us)
  let ?m = "\<lparr>msg_role = Model, msg_text = fst u, msg_timestamp = now k\<rparr>"
  from Cons.prems(2) have "h = replace_last prev ?m \<or> h \<in> set (stream_history now (Suc k) (replace_last prev ?m) us)"
    by (simp add: Let_def)
  then show ?case
  proof
    assume "h = replace_last prev ?m"
    with replace_last_props [OF Cons.prems(1), of ?m] show ?thesis by simp
  next
    assume a: "h \<in> set (stream_history now (Suc k) (replace_last prev ?m) us)"
    from replace_last_props [OF Cons.prems(1), of ?m] have n: "replace_last prev ?m \<noteq> []" by simp
    from Cons.IH [OF n a] replace_last_props [OF Cons.prems(1), of ?m] show ?thesis by simp
  qed
qed

lemma length_stream_history: "length (stream_history now k prev us) = length us"
  by (induction us arbitrary: prev k) (simp_all add: Let_def)

lemma stream_history_last_text:
  "prev \<noteq> [] \<Longrightarrow> us \<noteq> [] \<Longrightarrow>
   msg_text (last (last (stream_history now k prev us))) = fst (last us)"
proof (induction us arbitrary: prev k)
  case Nil
  then show ?case by simp
next
  case (Cons u us)
  let ?m = "\<lparr>msg_role = Model, msg_text = fst u, msg_timestamp = now k\<rparr>"
  from replace_last_props [OF Cons.prems(1), of ?m]
  have n: "replace_last prev ?m \<noteq> []" and l: "last (replace_last prev ?m) = ?m" by simp_all
  show ?case
  proof (cases "us = []")
    case True
    with l show ?thesis by (simp add: Let_def)
  next
    case False
    then have "stream_history now (Suc k) (replace_last prev ?m) us \<noteq> []"
      by (cases us) (simp_all add: Let_def)
    with Cons.IH [OF n False, of "Suc k"] False show ?thesis by (simp add: Let_def)
  qed
qed

lemma length_continue_loop: "length (continue_loop fullText chunks) = length chunks"
  by (induction chunks arbitrary: fullText) (simp_all add: Let_def)

text \<open>
  C2. With a result and an empty chat history, one follow-up message sets the history
  first to the synthesized model turn (the text of the result) and the user turn, then
  adds the placeholder; from then on every value of the history, after each streamed
  update and after a failure, has length 3, the same first two entries and a model
  turn as the third. There is one value for each update, the last has length 3, and
  when the stream ends without failure the text of its third entry is the text of the
  last update (the placeholder text if there was no update).
\<close>

theorem sendFollowUp_history:
  "result st = Some res \<and> chatHistory st = [] \<longrightarrow>
     (let out = continueConversationStream env key provider
                  [\<lparr>msg_role = Model, msg_text = res_text res, msg_timestamp = now 1\<rparr>] message
                  (initialContextParts st);
          tr = handleSendMessage env key provider now st message
      in length tr = 2 + length (updates out) + (if thrown out = None then 0 else 1) \<and>
         hd tr = [\<lparr>msg_role = Model, msg_text = res_text res, msg_timestamp = now 1\<rparr>,
                  \<lparr>msg_role = User, msg_text = message, msg_timestamp = now 0\<rparr>] \<and>
         (\<forall>h \<in> set (tl tr). length h = 3 \<and> take 2 h = hd tr \<and> msg_role (h ! 2) = Model) \<and>
         length (last tr) = 3 \<and>
         (thrown out = None \<longrightarrow>
            msg_text (last tr ! 2) =
              (if updates out = [] then js ''Thinking...'' else fst (last (updates out)))))"
proof
  assume a: "result st = Some res \<and> chatHistory st = []"
  define first where "first = \<lparr>msg_role = Model, msg_text = res_text res, msg_timestamp = now 1\<rparr>"
  define userMsg where "userMsg = \<lparr>msg_role = User, msg_text = message, msg_timestamp = now 0\<rparr>"
  define ph where "ph = [first, userMsg, \<lparr>msg_role = Model, msg_text = js ''Thinking...'', msg_timestamp = now 2\<rparr>]"
  define out where "out = continueConversationStream env key provider [first] message (initialContextParts st)"
  define streamed where "streamed = stream_history now (Suc 2) ph (updates out)"
  define failed where "failed =
     (case thrown out of None \<Rightarrow> []
      | Some msg \<Rightarrow>
          [replace_last (last (ph # streamed))
             \<lparr>msg_role = Model,
              msg_text = js ''Error: '' @
                (if includes_js msg (js ''[object Object]'')
                 then js ''Connection interrupted (Unknown Error).'' else msg),
              msg_timestamp = now (Suc 2 + length (updates out))\<rparr>])"
  have tr: "handleSendMessage env key provider now st message = [[first, userMsg], ph] @ streamed @ failed"
    using a by (simp add: handleSendMessage_def Let_def first_def userMsg_def ph_def out_def
        streamed_def failed_def numeral_3_eq_3 cong: option.case_cong)
  have ph3: "ph \<noteq> []" "length ph = 3" "butlast ph = [first, userMsg]" "msg_role (last ph) = Model"
    by (simp_all add: ph_def)
  have st3: "\<And>h. h \<in> set streamed \<Longrightarrow> length h = 3 \<and> butlast h = [first, userMsg] \<and> msg_role (last h) = Model"
    using stream_history_entries [OF ph3(1), of _ now "Suc 2" "updates out"] ph3 by (simp add: streamed_def)
  have le: "last (ph # streamed) = ph \<or> last (ph # streamed) \<in> set streamed"
    by (cases "streamed = []") simp_all
  then have be: "length (last (ph # streamed)) = 3 \<and> butlast (last (ph # streamed)) = [first, userMsg]
       \<and> msg_role (last (last (ph # streamed))) = Model"
    using ph3 st3 by auto
  then have bne: "last (ph # streamed) \<noteq> []" by auto
  have f3: "\<And>h. h \<in> set failed \<Longrightarrow> length h = 3 \<and> butlast h = [first, userMsg] \<and> msg_role (last h) = Model"
    using be replace_last_props [OF bne] by (auto simp: failed_def split: option.splits)
  have shape: "\<And>h. length h = 3 \<and> butlast h = [first, userMsg] \<and> msg_role (last h) = Model \<Longrightarrow>
      length h = 3 \<and> take 2 h = [first, userMsg] \<and> msg_role (h ! 2) = Model"
  proof -
    fix h :: "ChatMessage list"
    assume h: "length h = 3 \<and> butlast h = [first, userMsg] \<and> msg_role (last h) = Model"
    then have "h \<noteq> []" by auto
    then have "last h = h ! 2" using h by (simp add: last_conv_nth)
    moreover have "take 2 h = butlast h" using h by (simp add: butlast_conv_take)
    ultimately show "length h = 3 \<and> take 2 h = [first, userMsg] \<and> msg_role (h ! 2) = Model"
      using h by simp
  qed
  have all3: "\<forall>h \<in> set (ph # streamed @ failed). length h = 3 \<and> take 2 h = [first, userMsg] \<and> msg_role (h ! 2) = Model"
    using shape ph3 st3 f3 by auto
  have len: "length ([[first, userMsg], ph] @ streamed @ failed) =
        2 + length (updates out) + (if thrown out = None then 0 else 1)"
    by (simp add: streamed_def failed_def length_stream_history split: option.splits)
  have lastin: "last ([[first, userMsg], ph] @ streamed @ failed) \<in> set (ph # streamed @ failed)"
    by (metis append_Cons append_Nil last_ConsR last_in_set list.distinct(1))
  have text_ok: "thrown out = None \<Longrightarrow>
      msg_text (last ([[first, userMsg], ph] @ streamed @ failed) ! 2) =
        (if updates out = [] then js ''Thinking...'' else fst (last (updates out)))"
  proof -
    assume n: "thrown out = None"
    then have f: "failed = []" by (simp add: failed_def)
    show ?thesis
    proof (cases "updates out = []")
      case True
      then show ?thesis using f by (simp add: streamed_def ph_def)
    next
      case False
      then have sne: "streamed \<noteq> []"
        using length_stream_history [of now "Suc 2" ph "updates out"] by (auto simp: streamed_def)
      then have "last streamed \<in> set streamed" by simp
      from st3 [OF this] have l3: "length (last streamed) = 3" by simp
      then have "last streamed \<noteq> []" by auto
      then have "last (last streamed) = last streamed ! 2"
        using l3 by (simp add: last_conv_nth)
      moreover have "msg_text (last (last streamed)) = fst (last (updates out))"
        unfolding streamed_def by (rule stream_history_last_text [OF ph3(1) False])
      ultimately show ?thesis using f sne False by simp
    qed
  qed
  define tr' where "tr' = [[first, userMsg], ph] @ streamed @ failed"
  have c1: "length tr' = 2 + length (updates out) + (if thrown out = None then 0 else 1)"
    using len by (simp only: tr'_def)
  have c2: "hd tr' = [first, userMsg]" by (simp add: tr'_def)
  have tl: "tl tr' = ph # streamed @ failed" by (simp add: tr'_def)
  have c3: "\<forall>h \<in> set (tl tr'). length h = 3 \<and> take 2 h = hd tr' \<and> msg_role (h ! 2) = Model"
    using all3 by (simp only: tl c2)
  have "last tr' \<in> set (ph # streamed @ failed)" using lastin by (simp only: tr'_def)
  with all3 have c4: "length (last tr') = 3" by blast
  have c5: "thrown out = None \<longrightarrow>
      msg_text (last tr' ! 2) = (if updates out = [] then js ''Thinking...'' else fst (last (updates out)))"
    using text_ok by (simp only: tr'_def) blast
  have "handleSendMessage env key provider now st message = tr'" by (simp only: tr tr'_def)
  with c1 c2 c3 c4 c5
  show "let out = continueConversationStream env key provider
                  [\<lparr>msg_role = Model, msg_text = res_text res, msg_timestamp = now 1\<rparr>] message
                  (initialContextParts st);
          tr = handleSendMessage env key provider now st message
      in length tr = 2 + length (updates out) + (if thrown out = None then 0 else 1) \<and>
         hd tr = [\<lparr>msg_role = Model, msg_text = res_text res, msg_timestamp = now 1\<rparr>,
                  \<lparr>msg_role = User, msg_text = message, msg_timestamp = now 0\<rparr>] \<and>
         (\<forall>h \<in> set (tl tr). length h = 3 \<and> take 2 h = hd tr \<and> msg_role (h ! 2) = Model) \<and>
         length (last tr) = 3 \<and>
         (thrown out = None \<longrightarrow>
            msg_text (last tr ! 2) =
              (if updates out = [] then js ''Thinking...'' else fst (last (updates out))))"
    unfolding Let_def first_def [symmetric] userMsg_def [symmetric] out_def [symmetric]
    by (simp only:) 
qed


section \<open>The theorems at concrete inputs\<close>

lemma key_present: "\<not> api_key_missing (Some (js ''key''))"
  by (simp add: api_key_missing_def truthy_str_def js_def)

theorem analyze_updates_once_per_chunk_witness:
  "\<not> api_key_missing (Some (js ''key'')) \<and>
   length (updates (analyzeContentStream ex_env (Some (js ''key''))
      (\<lambda>contents. ([ex_text_chunk (js ''ab''), \<lparr>chunk_text = None, chunk_groundingMetadata = None\<rparr>,
                      ex_text_chunk (js ''c'')], None))
      (js ''check this river'') None None None None)) = 3 \<and>
   prefix
     (fst (updates (analyzeContentStream ex_env (Some (js ''key''))
      (\<lambda>contents. ([ex_text_chunk (js ''ab''), \<lparr>chunk_text = None, chunk_groundingMetadata = None\<rparr>,
                      ex_text_chunk (js ''c'')], None))
      (js ''check this river'') None None None None) ! 0))
     (fst (updates (analyzeContentStream ex_env (Some (js ''key''))
      (\<lambda>contents. ([ex_text_chunk (js ''ab''), \<lparr>chunk_text = None, chunk_groundingMetadata = None\<rparr>,
                      ex_text_chunk (js ''c'')], None))
      (js ''check this river'') None None None None) ! 2))"
proof -
  let ?ups = "updates (analyzeContentStream ex_env (Some (js ''key''))
      (\<lambda>contents. ([ex_text_chunk (js ''ab''), \<lparr>chunk_text = None, chunk_groundingMetadata = None\<rparr>,
                      ex_text_chunk (js ''c'')], None))
      (js ''check this river'') None None None None)"
  from analyze_updates_once_per_chunk [of "Some (js ''key'')" ex_env
      "\<lambda>contents. ([ex_text_chunk (js ''ab''), \<lparr>chunk_text = None, chunk_groundingMetadata = None\<rparr>,
                      ex_text_chunk (js ''c'')], None)"
      "js ''check this river''" None None None None] key_present
  have len: "length ?ups = 3"
    and pre: "\<forall>i j. i \<le> j \<and> j < length ?ups \<longrightarrow> prefix (fst (?ups ! i)) (fst (?ups ! j)) \<and>
        length (fst (?ups ! i)) \<le> length (fst (?ups ! j))"
    by simp_all
  have "(0::nat) \<le> 2 \<and> 2 < length ?ups" using len by simp
  with pre have "prefix (fst (?ups ! 0)) (fst (?ups ! 2))" by blast
  with len key_present show ?thesis by simp
qed

theorem continue_contents_turns_witness:
  "[TextPart (js ''check this river'')] \<noteq> [] \<and>
   continue_contents [\<lparr>msg_role = Model, msg_text = js ''report'', msg_timestamp = 1\<rparr>] (js ''hello'')
       [TextPart (js ''check this river'')] =
     [\<lparr>role = User, parts = [TextPart (js ''check this river'')]\<rparr>,
      \<lparr>role = Model, parts = [TextPart (js ''report'')]\<rparr>,
      \<lparr>role = User, parts = [TextPart (js ''hello'')]\<rparr>] \<and>
   \<not> api_key_missing (Some (js ''key'')) \<and>
   sent (continueConversationStream ex_env (Some (js ''key''))
      (\<lambda>contents. ([ex_source_chunk (js ''a'') (js ''t''), ex_text_chunk (js ''ok'')], None))
      [\<lparr>msg_role = Model, msg_text = js ''report'', msg_timestamp = 1\<rparr>] (js ''hello'')
      [TextPart (js ''check this river'')]) =
     Some [\<lparr>role = User, parts = [TextPart (js ''check this river'')]\<rparr>,
           \<lparr>role = Model, parts = [TextPart (js ''report'')]\<rparr>,
           \<lparr>role = User, parts = [TextPart (js ''hello'')]\<rparr>] \<and>
   map snd (updates (continueConversationStream ex_env (Some (js ''key''))
      (\<lambda>contents. ([ex_source_chunk (js ''a'') (js ''t''), ex_text_chunk (js ''ok'')], None))
      [\<lparr>msg_role = Model, msg_text = js ''report'', msg_timestamp = 1\<rparr>] (js ''hello'')
      [TextPart (js ''check this river'')])) = [None, None]"
proof -
  have u: "map snd (updates (continueConversationStream ex_env (Some (js ''key''))
      (\<lambda>contents. ([ex_source_chunk (js ''a'') (js ''t''), ex_text_chunk (js ''ok'')], None))
      [\<lparr>msg_role = Model, msg_text = js ''report'', msg_timestamp = 1\<rparr>] (js ''hello'')
      [TextPart (js ''check this river'')])) = [None, None]"
    using key_present by (simp add: continueConversationStream_def Let_def)
  from continue_contents_turns [of "[TextPart (js ''check this river'')]"
      "[\<lparr>msg_role = Model, msg_text = js ''report'', msg_timestamp = 1\<rparr>]" "js ''hello''"
      "Some (js ''key'')" ex_env
      "\<lambda>contents. ([ex_source_chunk (js ''a'') (js ''t''), ex_text_chunk (js ''ok'')], None)"]
    key_present u
  show ?thesis by simp
qed

theorem grounding_append_only_deduplicated_witness:
  "Suc 0 < length (updates (analyzeContentStream ex_env (Some (js ''key''))
       (\<lambda>contents. ([ex_source_chunk (js ''a'') (js ''t1''), ex_source_chunk (js ''b'') (js ''t2''),
                       ex_source_chunk (js ''a'') (js ''t3'')], None))
       (js ''check this river'') None None None None)) \<and>
   prefix
     (groundingChunks (the (snd (updates (analyzeContentStream ex_env (Some (js ''key''))
       (\<lambda>contents. ([ex_source_chunk (js ''a'') (js ''t1''), ex_source_chunk (js ''b'') (js ''t2''),
                       ex_source_chunk (js ''a'') (js ''t3'')], None))
       (js ''check this river'') None None None None) ! 0))))
     (groundingChunks (the (snd (updates (analyzeContentStream ex_env (Some (js ''key''))
       (\<lambda>contents. ([ex_source_chunk (js ''a'') (js ''t1''), ex_source_chunk (js ''b'') (js ''t2''),
                       ex_source_chunk (js ''a'') (js ''t3'')], None))
       (js ''check this river'') None None None None) ! Suc 0)))) \<and>
   renderGrounding (Some
      \<lparr>groundingChunks = [\<lparr>web = Some \<lparr>uri = js ''a'', web_title = js ''t1''\<rparr>\<rparr>,
                          \<lparr>web = Some \<lparr>uri = js ''b'', web_title = js ''t2''\<rparr>\<rparr>,
                          \<lparr>web = Some \<lparr>uri = js ''a'', web_title = js ''t3''\<rparr>\<rparr>],
       webSearchQueries = None\<rparr>) =
     Some [\<lparr>uri = js ''a'', web_title = js ''t3''\<rparr>, \<lparr>uri = js ''b'', web_title = js ''t2''\<rparr>] \<and>
   distinct (map uri [\<lparr>uri = js ''a'', web_title = js ''t3''\<rparr>, \<lparr>uri = js ''b'', web_title = js ''t2''\<rparr>])"
proof -
  let ?ups = "updates (analyzeContentStream ex_env (Some (js ''key''))
       (\<lambda>contents. ([ex_source_chunk (js ''a'') (js ''t1''), ex_source_chunk (js ''b'') (js ''t2''),
                       ex_source_chunk (js ''a'') (js ''t3'')], None))
       (js ''check this river'') None None None None)"
  let ?gm = "\<lparr>groundingChunks = [\<lparr>web = Some \<lparr>uri = js ''a'', web_title = js ''t1''\<rparr>\<rparr>,
                          \<lparr>web = Some \<lparr>uri = js ''b'', web_title = js ''t2''\<rparr>\<rparr>,
                          \<lparr>web = Some \<lparr>uri = js ''a'', web_title = js ''t3''\<rparr>\<rparr>],
       webSearchQueries = None\<rparr>"
  let ?srcs = "[\<lparr>uri = js ''a'', web_title = js ''t3''\<rparr>, \<lparr>uri = js ''b'', web_title = js ''t2''\<rparr>]"
  note inst = grounding_append_only_deduplicated [of ex_env "Some (js ''key'')"
       "\<lambda>contents. ([ex_source_chunk (js ''a'') (js ''t1''), ex_source_chunk (js ''b'') (js ''t2''),
                       ex_source_chunk (js ''a'') (js ''t3'')], None)"
       "js ''check this river''" None None None None ?gm ?srcs "js ''t1''" "js ''t2''" "js ''t3''"]
  have len: "Suc 0 < length ?ups"
    using key_present by (simp add: analyzeContentStream_def Let_def)
  from inst have r: "renderGrounding (Some ?gm) = Some ?srcs" by (simp only:)
  from inst len obtain g g' where "snd (?ups ! 0) = Some g" "snd (?ups ! Suc 0) = Some g'"
    "prefix (groundingChunks g) (groundingChunks g')" by blast
  then have p: "prefix (groundingChunks (the (snd (?ups ! 0)))) (groundingChunks (the (snd (?ups ! Suc 0))))"
    by simp
  from inst r have d: "distinct (map uri ?srcs)" by blast
  from len p r d show ?thesis by (simp only:) 
qed

theorem sendFollowUp_history_witness:
  "result ex_state = Some \<lparr>res_text = js ''report'', res_groundingMetadata = None\<rparr> \<and>
   chatHistory ex_state = [] \<and>
   length (handleSendMessage ex_env (Some (js ''key''))
      (\<lambda>contents. ([ex_text_chunk (js ''Hi''), ex_text_chunk (js '' there'')], None))
      int ex_state (js ''hello'')) = 4 \<and>
   length (last (handleSendMessage ex_env (Some (js ''key''))
      (\<lambda>contents. ([ex_text_chunk (js ''Hi''), ex_text_chunk (js '' there'')], None))
      int ex_state (js ''hello''))) = 3 \<and>
   msg_text (last (handleSendMessage ex_env (Some (js ''key''))
      (\<lambda>contents. ([ex_text_chunk (js ''Hi''), ex_text_chunk (js '' there'')], None))
      int ex_state (js ''hello'')) ! 2) = js ''Hi there''"
proof -
  let ?out = "continueConversationStream ex_env (Some (js ''key''))
      (\<lambda>contents. ([ex_text_chunk (js ''Hi''), ex_text_chunk (js '' there'')], None))
      [\<lparr>msg_role = Model, msg_text = res_text \<lparr>res_text = js ''report'', res_groundingMetadata = None\<rparr>,
         msg_timestamp = int 1\<rparr>] (js ''hello'') (initialContextParts ex_state)"
  have u: "updates ?out = [(js ''Hi'', None), (js ''Hi'' @ js '' there'', None)]"
    using key_present by (simp add: continueConversationStream_def Let_def add_text_def js_def)
  have t: "thrown ?out = None"
    using key_present by (simp add: continueConversationStream_def Let_def)
  have j: "js ''Hi'' @ js '' there'' = js ''Hi there''" by (simp add: js_def)
  from sendFollowUp_history [of ex_state "\<lparr>res_text = js ''report'', res_groundingMetadata = None\<rparr>"
      ex_env "Some (js ''key'')"
      "\<lambda>contents. ([ex_text_chunk (js ''Hi''), ex_text_chunk (js '' there'')], None)"
      int "js ''hello''"] u t j
  show ?thesis by (simp add: Let_def)
qed

end
